theory Spec2Isabelle
  imports Main "HOL-Library.Sublist"
begin

section \<open>Data model\<close>

text \<open>
  The session coordinator is the React provider \<^verbatim>\<open>AuthProvider\<close> of the hook file
  (\<^verbatim>\<open>use-auth\<close>). Its state is the pair of \<^verbatim>\<open>useState\<close> cells \<^verbatim>\<open>user\<close> and
  \<^verbatim>\<open>loading\<close>; the spec's \<^verbatim>\<open>currentUser\<close> is \<^verbatim>\<open>user\<close> and its \<^verbatim>\<open>isResolved\<close> is
  \<^verbatim>\<open>\<not> loading\<close>. Every call that leaves the coordinator (identity provider, document
  store, local storage, console, toast) is recorded, in order, in a trace.
\<close>

text \<open>The provider's user record: the fields of \<^verbatim>\<open>User\<close> that the code reads.\<close>

record User =
  uid :: string
  displayName :: "string option"
  email :: "string option"
  emailVerified :: bool
  photoURL :: "string option"

text \<open>
  A thrown value: \<^verbatim>\<open>error.code\<close> (undefined on a plain \<^verbatim>\<open>Error\<close>) and
  \<^verbatim>\<open>error.message\<close>. Every thrown value is taken to be an error object with a
  string message, as the provider's and the store's errors are.
\<close>

record js_error =
  code :: "string option"
  message :: string

definition new_Error :: "string \<Rightarrow> js_error" where
  "new_Error m = \<lparr>code = None, message = m\<rparr>"

text \<open>The value \<^verbatim>\<open>JSON.parse\<close> returns, as its syntax tree.\<close>

datatype json =
    JNull
  | JBool bool
  | JNumber string
  | JString string
  | JArray "json list"
  | JObject "(string \<times> json) list"

text \<open>The document written under \<^verbatim>\<open>users/<uid>\<close>.\<close>

record profile_doc =
  doc_uid :: string
  doc_displayName :: "string option"
  doc_email :: "string option"
  doc_photoURL :: "string option"
  lastLogin :: nat
  createdAt :: nat
  cookbook :: json
  variationBook :: json

record toast_props =
  variant :: "string option"
  title :: string
  description :: "string option"

datatype event =
    GetDoc string
  | SetDoc string profile_doc bool
  | UpdateDoc string nat
  | GetItem string
  | GetRedirectResult
  | SignInWithRedirect
  | FirebaseSignOut
  | SignInWithEmailAndPassword string string
  | CreateUserWithEmailAndPassword string string
  | UpdateProfile User string
  | SendEmailVerification User
  | SendPasswordResetEmail string
  | DeleteUser User
  | Toast toast_props
  | ConsoleError string js_error

record state =
  user :: "User option"
  loading :: bool
  trace :: "event list"

text \<open>\<^verbatim>\<open>useState<User | null>(null)\<close> and \<^verbatim>\<open>useState(true)\<close>.\<close>

definition initial_state :: state where
  "initial_state = \<lparr>user = None, loading = True, trace = []\<rparr>"

text \<open>
  What the collaborators answer: the outcome of each call of the identity provider and
  of the document store (\<open>Inl\<close> is a rejected promise), the content of local storage
  and the clock read by \<^verbatim>\<open>new Date()\<close>.
\<close>

record env =
  getDoc :: "string \<Rightarrow> js_error + bool"
  setDoc :: "string \<Rightarrow> profile_doc \<Rightarrow> bool \<Rightarrow> js_error + unit"
  updateDoc :: "string \<Rightarrow> nat \<Rightarrow> js_error + unit"
  getItem :: "string \<Rightarrow> string option"
  now :: nat
  getRedirectResult :: "js_error + User option"
  signInWithRedirect :: "js_error + unit"
  firebaseSignOut :: "js_error + unit"
  signInWithEmailAndPassword :: "string \<Rightarrow> string \<Rightarrow> js_error + User"
  createUserWithEmailAndPassword :: "string \<Rightarrow> string \<Rightarrow> js_error + User"
  updateProfile :: "User \<Rightarrow> string \<Rightarrow> js_error + unit"
  sendEmailVerification :: "User \<Rightarrow> js_error + unit"
  sendPasswordResetEmail :: "string \<Rightarrow> js_error + unit"
  deleteUser :: "User \<Rightarrow> js_error + unit"

definition emit :: "event \<Rightarrow> state \<Rightarrow> state" where
  "emit e s = s\<lparr>trace := trace s @ [e]\<rparr>"

definition setUser :: "User option \<Rightarrow> state \<Rightarrow> state" where
  "setUser u s = s\<lparr>user := u\<rparr>"

definition setLoading :: "bool \<Rightarrow> state \<Rightarrow> state" where
  "setLoading b s = s\<lparr>loading := b\<rparr>"

definition toast :: "toast_props \<Rightarrow> state \<Rightarrow> state" where
  "toast p s = emit (Toast p) s"

definition console_error :: "string \<Rightarrow> js_error \<Rightarrow> state \<Rightarrow> state" where
  "console_error label e s = emit (ConsoleError label e) s"

section \<open>JavaScript built-ins used by the coordinator\<close>

text \<open>\<^verbatim>\<open>x || d\<close> on a string that may be null: null and the empty string are falsy.\<close>

definition js_or :: "string option \<Rightarrow> string \<Rightarrow> string" where
  "js_or x d = (case x of None \<Rightarrow> d | Some v \<Rightarrow> if v = [] then d else v)"

text \<open>\<^verbatim>\<open>s.split(sep)\<close> for a one-character separator: never the empty array.\<close>

fun split :: "char \<Rightarrow> string \<Rightarrow> string list" where
  "split sep [] = [[]]"
| "split sep (c # cs) =
     (if c = sep then [] # split sep cs
      else (case split sep cs of [] \<Rightarrow> [[c]] | w # ws \<Rightarrow> (c # w) # ws))"

text \<open>\<^verbatim>\<open>xs[i]\<close>: undefined out of range.\<close>

definition index :: "'a list \<Rightarrow> nat \<Rightarrow> 'a option" where
  "index xs i = (if i < length xs then Some (xs ! i) else None)"

text \<open>\<^verbatim>\<open>xs.includes(x)\<close> where \<^verbatim>\<open>x\<close> may be undefined and \<^verbatim>\<open>xs\<close> holds strings.\<close>

definition array_includes :: "string list \<Rightarrow> string option \<Rightarrow> bool" where
  "array_includes xs x = (case x of None \<Rightarrow> False | Some v \<Rightarrow> v \<in> set xs)"

text \<open>\<^verbatim>\<open>s.includes(sub)\<close> on strings.\<close>

fun string_includes :: "string \<Rightarrow> string \<Rightarrow> bool" where
  "string_includes [] sub = (sub = [])"
| "string_includes (c # cs) sub = (prefix sub (c # cs) \<or> string_includes cs sub)"

subsection \<open>\<^verbatim>\<open>JSON.parse\<close>\<close>

text \<open>
  The JSON grammar of ECMA-404, which \<^verbatim>\<open>JSON.parse\<close> accepts exactly. The tree keeps a
  number as its lexeme and a string as the raw text between its quotes (escapes
  checked, not decoded), and an object as its members in source order. The recursive
  descent carries a fuel bound; \<open>JSON_parse\<close> starts it with more than the input can use
  (lemma \<open>JSON_parse_complete\<close> below).
\<close>

definition is_ws :: "char \<Rightarrow> bool" where
  "is_ws c = (c = CHR '' '' \<or> c = CHR 0x09 \<or> c = CHR 0x0A \<or> c = CHR 0x0D)"

definition is_digit :: "char \<Rightarrow> bool" where
  "is_digit c = (c \<in> set ''0123456789'')"

definition is_hex :: "char \<Rightarrow> bool" where
  "is_hex c = (c \<in> set ''0123456789abcdefABCDEF'')"

definition skip_ws :: "string \<Rightarrow> string" where
  "skip_ws s = dropWhile is_ws s"

definition literal :: "string \<Rightarrow> string \<Rightarrow> string option" where
  "literal p s = (if prefix p s then Some (drop (length p) s) else None)"

text \<open>The body of a string, after its opening quote: the raw body and what follows the closing quote.\<close>

fun parse_string :: "string \<Rightarrow> (string \<times> string) option" where
  "parse_string [] = None"
| "parse_string (c # cs) =
     (if c = CHR 0x22 then Some ([], cs)
      else if c = CHR 0x5C then
        (case cs of
           [] \<Rightarrow> None
         | e # r \<Rightarrow>
             if e \<in> set [CHR 0x22, CHR 0x5C, CHR ''/'', CHR ''b'', CHR ''f'', CHR ''n'', CHR ''r'', CHR ''t''] then
               (case parse_string r of
                  None \<Rightarrow> None
                | Some (str, rest) \<Rightarrow> Some (c # e # str, rest))
             else if e = CHR ''u'' \<and> 4 \<le> length r \<and> list_all is_hex (take 4 r) then
               (case parse_string (drop 4 r) of
                  None \<Rightarrow> None
                | Some (str, rest) \<Rightarrow> Some (c # e # take 4 r @ str, rest))
             else None)
      else if (of_char c :: nat) < 32 then None
      else
        (case parse_string cs of
           None \<Rightarrow> None
         | Some (str, rest) \<Rightarrow> Some (c # str, rest)))"

text \<open>One or more digits.\<close>

definition parse_digits :: "string \<Rightarrow> (string \<times> string) option" where
  "parse_digits s =
     (if takeWhile is_digit s = [] then None
      else Some (takeWhile is_digit s, dropWhile is_digit s))"

text \<open>\<^verbatim>\<open>0\<close> or a digit from 1 to 9 followed by digits.\<close>

definition parse_int :: "string \<Rightarrow> (string \<times> string) option" where
  "parse_int s =
     (case s of
        [] \<Rightarrow> None
      | d # r \<Rightarrow>
          if d = CHR ''0'' then Some ([d], r)
          else if is_digit d then Some (d # takeWhile is_digit r, dropWhile is_digit r)
          else None)"

definition parse_frac :: "string \<Rightarrow> (string \<times> string) option" where
  "parse_frac s =
     (case s of
        [] \<Rightarrow> Some ([], s)
      | d # r \<Rightarrow>
          if d = CHR ''.'' then
            (case parse_digits r of None \<Rightarrow> None | Some (ds, rest) \<Rightarrow> Some (d # ds, rest))
          else Some ([], s))"

definition parse_exp :: "string \<Rightarrow> (string \<times> string) option" where
  "parse_exp s =
     (case s of
        [] \<Rightarrow> Some ([], s)
      | e # r \<Rightarrow>
          if e = CHR ''e'' \<or> e = CHR ''E'' then
            (case r of
               [] \<Rightarrow> None
             | sg # r' \<Rightarrow>
                 if sg = CHR ''+'' \<or> sg = CHR ''-'' then
                   (case parse_digits r' of
                      None \<Rightarrow> None
                    | Some (ds, rest) \<Rightarrow> Some (e # sg # ds, rest))
                 else
                   (case parse_digits r of
                      None \<Rightarrow> None
                    | Some (ds, rest) \<Rightarrow> Some (e # ds, rest)))
          else Some ([], s))"

definition parse_number :: "string \<Rightarrow> (string \<times> string) option" where
  "parse_number s =
     (let (sign, s1) = (case s of [] \<Rightarrow> ([], s) | c # r \<Rightarrow> if c = CHR ''-'' then ([c], r) else ([], s))
      in case parse_int s1 of
           None \<Rightarrow> None
         | Some (i, s2) \<Rightarrow>
             (case parse_frac s2 of
                None \<Rightarrow> None
              | Some (f, s3) \<Rightarrow>
                  (case parse_exp s3 of
                     None \<Rightarrow> None
                   | Some (x, s4) \<Rightarrow> Some (sign @ i @ f @ x, s4))))"

text \<open>A value that holds no other value: a literal name, a string or a number.\<close>

definition parse_scalar :: "string \<Rightarrow> (json \<times> string) option" where
  "parse_scalar s =
     (case s of
        [] \<Rightarrow> None
      | c # r \<Rightarrow>
          if c = CHR ''n'' then map_option (Pair JNull) (literal ''null'' s)
          else if c = CHR ''t'' then map_option (Pair (JBool True)) (literal ''true'' s)
          else if c = CHR ''f'' then map_option (Pair (JBool False)) (literal ''false'' s)
          else if c = CHR 0x22 then
            (case parse_string r of None \<Rightarrow> None | Some (str, rest) \<Rightarrow> Some (JString str, rest))
          else
            (case parse_number s of
               None \<Rightarrow> None
             | Some (lexeme, rest) \<Rightarrow> Some (JNumber lexeme, rest)))"

fun parse_value :: "nat \<Rightarrow> string \<Rightarrow> (json \<times> string) option"
  and parse_elements :: "nat \<Rightarrow> string \<Rightarrow> (json list \<times> string) option"
  and parse_members :: "nat \<Rightarrow> string \<Rightarrow> ((string \<times> json) list \<times> string) option"
where
  "parse_value 0 s = None"
| "parse_value (Suc n) s =
     (case skip_ws s of
        [] \<Rightarrow> None
      | c # r \<Rightarrow>
          if c = CHR ''['' then
            (case skip_ws r of
               [] \<Rightarrow> None
             | d # r' \<Rightarrow>
                 if d = CHR '']'' then Some (JArray [], r')
                 else (case parse_elements n r of
                         None \<Rightarrow> None
                       | Some (vs, rest) \<Rightarrow> Some (JArray vs, rest)))
          else if c = CHR ''{'' then
            (case skip_ws r of
               [] \<Rightarrow> None
             | d # r' \<Rightarrow>
                 if d = CHR ''}'' then Some (JObject [], r')
                 else (case parse_members n r of
                         None \<Rightarrow> None
                       | Some (ms, rest) \<Rightarrow> Some (JObject ms, rest)))
          else parse_scalar (c # r))"
| "parse_elements 0 s = None"
| "parse_elements (Suc n) s =
     (case parse_value n s of
        None \<Rightarrow> None
      | Some (v, r) \<Rightarrow>
          (case skip_ws r of
             [] \<Rightarrow> None
           | d # r' \<Rightarrow>
               if d = CHR '','' then
                 (case parse_elements n r' of
                    None \<Rightarrow> None
                  | Some (vs, rest) \<Rightarrow> Some (v # vs, rest))
               else if d = CHR '']'' then Some ([v], r')
               else None))"
| "parse_members 0 s = None"
| "parse_members (Suc n) s =
     (case skip_ws s of
        [] \<Rightarrow> None
      | q # r \<Rightarrow>
          if q \<noteq> CHR 0x22 then None
          else
            (case parse_string r of
               None \<Rightarrow> None
             | Some (k, r1) \<Rightarrow>
                 (case skip_ws r1 of
                    [] \<Rightarrow> None
                  | col # r2 \<Rightarrow>
                      if col \<noteq> CHR '':'' then None
                      else
                        (case parse_value n r2 of
                           None \<Rightarrow> None
                         | Some (v, r3) \<Rightarrow>
                             (case skip_ws r3 of
                                [] \<Rightarrow> None
                              | d # r4 \<Rightarrow>
                                  if d = CHR '','' then
                                    (case parse_members n r4 of
                                       None \<Rightarrow> None
                                     | Some (ms, rest) \<Rightarrow> Some ((k, v) # ms, rest))
                                  else if d = CHR ''}'' then Some ([(k, v)], r4)
                                  else None)))))"

text \<open>The \<^verbatim>\<open>SyntaxError\<close> of \<^verbatim>\<open>JSON.parse\<close>; the text of its message depends on the engine.\<close>

definition SyntaxError :: js_error where
  "SyntaxError = new_Error ''Unexpected token in JSON''"

definition JSON_parse :: "string \<Rightarrow> js_error + json" where
  "JSON_parse s =
     (case parse_value (2 * length s + 2) s of
        None \<Rightarrow> Inl SyntaxError
      | Some (v, r) \<Rightarrow> if skip_ws r = [] then Inr v else Inl SyntaxError)"

section \<open>The coordinator's operations\<close>

text \<open>
  Each operation takes the collaborators' answers and the state, and returns how its
  promise settles (\<open>Inl\<close>: rejected with that error) together with the state it leaves.
\<close>

definition ALLOWED_DOMAINS :: "string list" where
  "ALLOWED_DOMAINS = [''gmail.com'', ''yahoo.com'', ''outlook.com'', ''microsoft.com'']"

text \<open>The local collection stored under a key: \<^verbatim>\<open>JSON.parse(localStorage.getItem(key) || '[]')\<close>.\<close>

definition read_local :: "env \<Rightarrow> string \<Rightarrow> js_error + json" where
  "read_local w key = JSON_parse (js_or (getItem w key) ''[]'')"

text \<open>The branch of \<^verbatim>\<open>handleUser\<close> taken when the profile document does not exist.\<close>

definition create_profile :: "env \<Rightarrow> User \<Rightarrow> state \<Rightarrow> (js_error + unit) \<times> state" where
  "create_profile w currentUser s =
     (let s1 = emit (GetItem ''cookbookRecipes'') s in
      case read_local w ''cookbookRecipes'' of
        Inl e \<Rightarrow> (Inl e, s1)
      | Inr localCookbook \<Rightarrow>
          (let s2 = emit (GetItem ''variationBook'') s1 in
           case read_local w ''variationBook'' of
             Inl e \<Rightarrow> (Inl e, s2)
           | Inr localVariations \<Rightarrow>
               (let d = \<lparr>doc_uid = uid currentUser,
                         doc_displayName = displayName currentUser,
                         doc_email = email currentUser,
                         doc_photoURL = photoURL currentUser,
                         lastLogin = now w,
                         createdAt = now w,
                         cookbook = localCookbook,
                         variationBook = localVariations\<rparr>;
                    s3 = emit (SetDoc (uid currentUser) d True) s2
                in case setDoc w (uid currentUser) d True of
                     Inl e \<Rightarrow> (Inl e, s3)
                   | Inr _ \<Rightarrow> (Inr (), s3))))"

text \<open>The branch taken when it exists: \<^verbatim>\<open>updateDoc(userDocRef, { lastLogin: new Date() })\<close>.\<close>

definition update_lastLogin :: "env \<Rightarrow> User \<Rightarrow> state \<Rightarrow> (js_error + unit) \<times> state" where
  "update_lastLogin w currentUser s =
     (let s1 = emit (UpdateDoc (uid currentUser) (now w)) s in
      case updateDoc w (uid currentUser) (now w) of
        Inl e \<Rightarrow> (Inl e, s1)
      | Inr _ \<Rightarrow> (Inr (), s1))"

text \<open>
  The handler of a session-change notification. Its \<^verbatim>\<open>else\<close> branch is taken for
  \<^verbatim>\<open>null\<close> and for a user whose email is not verified. Nothing in it catches: a
  rejected \<^verbatim>\<open>await\<close> or a throwing \<^verbatim>\<open>JSON.parse\<close> ends it there.
\<close>

definition handleUser :: "env \<Rightarrow> User option \<Rightarrow> state \<Rightarrow> (js_error + unit) \<times> state" where
  "handleUser w currentUser s =
     (case currentUser of
        None \<Rightarrow> (Inr (), setLoading False (setUser None s))
      | Some u \<Rightarrow>
          if emailVerified u then
            (let s1 = emit (GetDoc (uid u)) (setUser (Some u) s) in
             case getDoc w (uid u) of
               Inl e \<Rightarrow> (Inl e, s1)
             | Inr userDoc_exists \<Rightarrow>
                 (case (if \<not> userDoc_exists then create_profile w u s1
                        else update_lastLogin w u s1) of
                    (Inl e, s2) \<Rightarrow> (Inl e, s2)
                  | (Inr _, s2) \<Rightarrow> (Inr (), setLoading False s2)))
          else (Inr (), setLoading False (setUser None s)))"

text \<open>The startup check \<^verbatim>\<open>getRedirectResult(auth).then(...).catch(...)\<close>.\<close>

definition checkRedirectResult :: "env \<Rightarrow> state \<Rightarrow> (js_error + unit) \<times> state" where
  "checkRedirectResult w s =
     (let s1 = emit GetRedirectResult s in
      case getRedirectResult w of
        Inr result \<Rightarrow>
          (case result of
             None \<Rightarrow> (Inr (), s1)
           | Some result_user \<Rightarrow>
               (Inr (),
                toast \<lparr>variant = None,
                       title = ''Welcome back, '' @ js_or (displayName result_user) ''friend'' @ ''!'',
                       description = Some ''You've successfully signed in.''\<rparr> s1))
      | Inl error \<Rightarrow>
          (let s2 = console_error ''Error getting redirect result:'' error s1 in
           if code error \<noteq> Some ''auth/web-storage-unsupported'' then
             (Inr (),
              toast \<lparr>variant = Some ''destructive'',
                     title = ''Sign-In Failed'',
                     description = Some ''An unexpected error occurred during sign-in.''\<rparr> s2)
           else (Inr (), s2)))"

definition signInWithGoogle :: "env \<Rightarrow> state \<Rightarrow> (js_error + unit) \<times> state" where
  "signInWithGoogle w s =
     (let s1 = emit SignInWithRedirect (setLoading True s) in
      case signInWithRedirect w of
        Inr _ \<Rightarrow> (Inr (), s1)
      | Inl error \<Rightarrow>
          (Inr (),
           setLoading False
             (toast \<lparr>variant = Some ''destructive'',
                     title = ''Sign-In Failed'',
                     description = Some (message error)\<rparr>
                (console_error ''Error during sign-in redirect: '' error s1))))"

text \<open>The \<^verbatim>\<open>try\<close> block of \<^verbatim>\<open>signInWithEmail\<close>.\<close>

definition signInWithEmail_try :: "env \<Rightarrow> string \<Rightarrow> string \<Rightarrow> state \<Rightarrow> (js_error + unit) \<times> state" where
  "signInWithEmail_try w email' pass s =
     (let s1 = emit (SignInWithEmailAndPassword email' pass) s in
      case signInWithEmailAndPassword w email' pass of
        Inl e \<Rightarrow> (Inl e, s1)
      | Inr result_user \<Rightarrow>
          if \<not> emailVerified result_user then
            (let s2 = emit FirebaseSignOut s1 in
             case firebaseSignOut w of
               Inl e \<Rightarrow> (Inl e, s2)
             | Inr _ \<Rightarrow> (Inl (new_Error ''Email not verified''), s2))
          else
            (let s2 = emit (UpdateDoc (uid result_user) (now w)) s1 in
             case updateDoc w (uid result_user) (now w) of
               Inl e \<Rightarrow> (Inl e, s2)
             | Inr _ \<Rightarrow>
                 (Inr (),
                  toast \<lparr>variant = None,
                         title = ''Welcome back, '' @ js_or (displayName result_user) ''friend'' @ ''!'',
                         description = None\<rparr> s2)))"

definition signInWithEmail :: "env \<Rightarrow> string \<Rightarrow> string \<Rightarrow> state \<Rightarrow> (js_error + unit) \<times> state" where
  "signInWithEmail w email' pass s =
     (case signInWithEmail_try w email' pass s of
        (Inr _, s') \<Rightarrow> (Inr (), s')
      | (Inl error, s') \<Rightarrow> (Inl error, console_error ''Error signing in with email: '' error s'))"

text \<open>The \<^verbatim>\<open>try\<close> block of \<^verbatim>\<open>signUpWithEmail\<close>, entered once the account exists.\<close>

definition signUpWithEmail_try :: "env \<Rightarrow> User \<Rightarrow> string \<Rightarrow> state \<Rightarrow> (js_error + unit) \<times> state" where
  "signUpWithEmail_try w userToVerify name s =
     (let s1 = emit (UpdateProfile userToVerify name) s in
      case updateProfile w userToVerify name of
        Inl e \<Rightarrow> (Inl e, s1)
      | Inr _ \<Rightarrow>
          (let s2 = emit (SendEmailVerification userToVerify) s1 in
           case sendEmailVerification w userToVerify of
             Inl e \<Rightarrow> (Inl e, s2)
           | Inr _ \<Rightarrow>
               (let d = \<lparr>doc_uid = uid userToVerify,
                         doc_displayName = Some name,
                         doc_email = email userToVerify,
                         doc_photoURL = None,
                         lastLogin = now w,
                         createdAt = now w,
                         cookbook = JArray [],
                         variationBook = JArray []\<rparr>;
                    s3 = emit (SetDoc (uid userToVerify) d False) s2
                in case setDoc w (uid userToVerify) d False of
                     Inl e \<Rightarrow> (Inl e, s3)
                   | Inr _ \<Rightarrow>
                       (let s4 = emit FirebaseSignOut s3 in
                        case firebaseSignOut w of
                          Inl e \<Rightarrow> (Inl e, s4)
                        | Inr _ \<Rightarrow> (Inr (), s4)))))"

text \<open>The \<^verbatim>\<open>catch\<close> block of \<^verbatim>\<open>signUpWithEmail\<close>.\<close>

definition signUpWithEmail_catch :: "env \<Rightarrow> User \<Rightarrow> js_error \<Rightarrow> state \<Rightarrow> (js_error + unit) \<times> state" where
  "signUpWithEmail_catch w userToVerify error s =
     (let s1 = console_error ''Error during sign up, attempting to clean up user:'' error s;
          s2 = emit (DeleteUser userToVerify) s1;
          s3 = (case deleteUser w userToVerify of
                  Inl e \<Rightarrow> console_error ''Failed to cleanup user:'' e s2
                | Inr _ \<Rightarrow> s2)
      in if code error = Some ''auth/network-request-failed''
            \<or> string_includes (message error) ''sendEmailVerification''
         then (Inl (new_Error ''Failed to send verification email.''), s3)
         else (Inl error, s3))"

definition signUpWithEmail :: "env \<Rightarrow> string \<Rightarrow> string \<Rightarrow> string \<Rightarrow> state \<Rightarrow> (js_error + unit) \<times> state" where
  "signUpWithEmail w email' pass name s =
     (let domain = index (split CHR ''@'' email') 1 in
      if \<not> array_includes ALLOWED_DOMAINS domain then
        (Inl (new_Error ''Please use a valid email provider (Gmail, Yahoo, Outlook, or Microsoft).''), s)
      else
        (let s1 = emit (CreateUserWithEmailAndPassword email' pass) s in
         case createUserWithEmailAndPassword w email' pass of
           Inl e \<Rightarrow> (Inl e, s1)
         | Inr userToVerify \<Rightarrow>
             (case signUpWithEmail_try w userToVerify name s1 of
                (Inr _, s2) \<Rightarrow> (Inr (), s2)
              | (Inl error, s2) \<Rightarrow> signUpWithEmail_catch w userToVerify error s2)))"

definition sendPasswordReset :: "env \<Rightarrow> string \<Rightarrow> state \<Rightarrow> (js_error + unit) \<times> state" where
  "sendPasswordReset w email' s =
     (let s1 = emit (SendPasswordResetEmail email') s in
      case sendPasswordResetEmail w email' of
        Inr _ \<Rightarrow> (Inr (), s1)
      | Inl error \<Rightarrow> (Inr (), console_error ''Error sending password reset email: '' error s1))"

definition signOut :: "env \<Rightarrow> state \<Rightarrow> (js_error + unit) \<times> state" where
  "signOut w s =
     (let s1 = emit FirebaseSignOut s in
      case firebaseSignOut w of
        Inr _ \<Rightarrow>
          (Inr (),
           toast \<lparr>variant = None,
                  title = ''Signed Out'',
                  description = Some ''You have been successfully signed out.''\<rparr> (setUser None s1))
      | Inl error \<Rightarrow>
          (Inr (),
           toast \<lparr>variant = Some ''destructive'',
                  title = ''Sign-Out Failed'',
                  description = Some (message error)\<rparr>
             (console_error ''Error during sign-out: '' error s1)))"

text \<open>The errors of the spec's taxonomy that the coordinator itself raises.\<close>

definition NotVerified :: js_error where
  "NotVerified = new_Error ''Email not verified''"

definition DomainNotAllowed :: js_error where
  "DomainNotAllowed = new_Error ''Please use a valid email provider (Gmail, Yahoo, Outlook, or Microsoft).''"

definition VerificationSendFailed :: js_error where
  "VerificationSendFailed = new_Error ''Failed to send verification email.''"

section \<open>Runs of the coordinator\<close>

text \<open>
  What happens to the coordinator during the life of the application: a notification
  of the subscription \<^verbatim>\<open>onAuthStateChanged(auth, handleUser)\<close>, the startup redirect
  check, or a call of one of the operations it exposes. A run is a sequence of these,
  each with what the collaborators answer while it is handled. A rejected promise
  changes nothing more: the state it left stays.
\<close>

datatype operation =
    Notification "User option"
  | CheckRedirectResult
  | SignInWithGoogle
  | SignInWithEmail string string
  | SignUpWithEmail string string string
  | SendPasswordReset string
  | SignOut

fun step :: "env \<Rightarrow> operation \<Rightarrow> state \<Rightarrow> state" where
  "step w (Notification currentUser) s = snd (handleUser w currentUser s)"
| "step w CheckRedirectResult s = snd (checkRedirectResult w s)"
| "step w SignInWithGoogle s = snd (signInWithGoogle w s)"
| "step w (SignInWithEmail email' pass) s = snd (signInWithEmail w email' pass s)"
| "step w (SignUpWithEmail email' pass name) s = snd (signUpWithEmail w email' pass name s)"
| "step w (SendPasswordReset email') s = snd (sendPasswordReset w email' s)"
| "step w SignOut s = snd (signOut w s)"

fun run :: "(env \<times> operation) list \<Rightarrow> state \<Rightarrow> state" where
  "run [] s = s"
| "run ((w, operation) # rest) s = run rest (step w operation s)"

text \<open>What the most recent notification of a run reported, if there was one.\<close>

fun last_notification :: "(env \<times> operation) list \<Rightarrow> User option option" where
  "last_notification [] = None"
| "last_notification ((w, operation) # rest) =
     (case last_notification rest of
        Some n \<Rightarrow> Some n
      | None \<Rightarrow> (case operation of Notification n \<Rightarrow> Some n | _ \<Rightarrow> None))"

section \<open>Concrete inputs\<close>

text \<open>A verified and an unverified account, and collaborators that always succeed.\<close>

definition ada :: User where
  "ada = \<lparr>uid = ''u1'', displayName = Some ''Ada'', email = Some ''ada@gmail.com'',
           emailVerified = True, photoURL = None\<rparr>"

definition bob :: User where
  "bob = \<lparr>uid = ''u2'', displayName = None, email = Some ''bob@gmail.com'',
           emailVerified = False, photoURL = None\<rparr>"

definition env_ok :: env where
  "env_ok =
     \<lparr>getDoc = (\<lambda>_. Inr True),
      setDoc = (\<lambda>_ _ _. Inr ()),
      updateDoc = (\<lambda>_ _. Inr ()),
      getItem = (\<lambda>_. None),
      now = 0,
      getRedirectResult = Inr None,
      signInWithRedirect = Inr (),
      firebaseSignOut = Inr (),
      signInWithEmailAndPassword = (\<lambda>_ _. Inr ada),
      createUserWithEmailAndPassword = (\<lambda>_ _. Inr bob),
      updateProfile = (\<lambda>_ _. Inr ()),
      sendEmailVerification = (\<lambda>_. Inr ()),
      sendPasswordResetEmail = (\<lambda>_. Inr ()),
      deleteUser = (\<lambda>_. Inr ())\<rparr>"

text \<open>Errors the collaborators report.\<close>

definition network_error :: js_error where
  "network_error = \<lparr>code = Some ''auth/network-request-failed'',
                     message = ''Firebase: Error (auth/network-request-failed).''\<rparr>"

definition too_many_requests :: js_error where
  "too_many_requests = \<lparr>code = Some ''auth/too-many-requests'',
                         message = ''Firebase: Error (auth/too-many-requests).''\<rparr>"

definition unavailable :: js_error where
  "unavailable = \<lparr>code = Some ''unavailable'',
                   message = ''Failed to get document because the client is offline.''\<rparr>"

definition storage_unsupported :: js_error where
  "storage_unsupported = \<lparr>code = Some ''auth/web-storage-unsupported'',
                           message = ''Firebase: Error (auth/web-storage-unsupported).''\<rparr>"

text \<open>A provider that refuses to start the redirect sign-in.\<close>

definition env_redirect_fails :: env where
  "env_redirect_fails = env_ok\<lparr>signInWithRedirect := Inl network_error\<rparr>"

definition env_store_down :: env where
  "env_store_down = env_ok\<lparr>getDoc := (\<lambda>_. Inl unavailable)\<rparr>"

definition env_first_login :: env where
  "env_first_login = env_ok\<lparr>getDoc := (\<lambda>_. Inr False)\<rparr>"

text \<open>A first login on a device whose stored cookbook is the text \<^verbatim>\<open>undefined\<close>.\<close>

definition env_malformed :: env where
  "env_malformed =
     env_ok\<lparr>getDoc := (\<lambda>_. Inr False),
             getItem := (\<lambda>key. if key = ''cookbookRecipes'' then Some ''undefined'' else None)\<rparr>"

definition env_unverified :: env where
  "env_unverified = env_ok\<lparr>signInWithEmailAndPassword := (\<lambda>_ _. Inr bob)\<rparr>"

definition env_unverified_signOut_fails :: env where
  "env_unverified_signOut_fails =
     env_ok\<lparr>signInWithEmailAndPassword := (\<lambda>_ _. Inr bob), firebaseSignOut := Inl network_error\<rparr>"

definition env_verification_throttled :: env where
  "env_verification_throttled = env_ok\<lparr>sendEmailVerification := (\<lambda>_. Inl too_many_requests)\<rparr>"

definition env_rollback :: env where
  "env_rollback = env_ok\<lparr>updateProfile := (\<lambda>_ _. Inl network_error),
                         deleteUser := (\<lambda>_. Inl too_many_requests)\<rparr>"

section \<open>Notions of the specification\<close>

text \<open>
  These two follow the spec's words, not the code. The domain suffix of an email is
  the text that follows its first \<^verbatim>\<open>@\<close>; an email without \<^verbatim>\<open>@\<close> has none. The code
  computes \<^verbatim>\<open>email.split('@')[1]\<close> instead, and the two are compared below.
\<close>

definition domain_suffix :: "string \<Rightarrow> string option" where
  "domain_suffix e =
     (case dropWhile (\<lambda>c. c \<noteq> CHR ''@'') e of [] \<Rightarrow> None | _ # d \<Rightarrow> Some d)"

text \<open>Two strings are equal up to letter case when they agree after \<open>map to_lower\<close>.\<close>

definition to_lower :: "char \<Rightarrow> char" where
  "to_lower c =
     (case map_of (zip ''ABCDEFGHIJKLMNOPQRSTUVWXYZ'' ''abcdefghijklmnopqrstuvwxyz'') c of
        None \<Rightarrow> c
      | Some l \<Rightarrow> l)"

section \<open>\<^verbatim>\<open>JSON.parse\<close>: the fuel never decides\<close>

lemma skip_ws_length: "length (skip_ws s) \<le> length s"
  by (simp add: skip_ws_def length_dropWhile_le)

lemma skip_ws_Cons_length: "skip_ws s = c # r \<Longrightarrow> length r < length s"
  using skip_ws_length [of s] by simp

lemma parse_string_length: "parse_string s = Some (str, r) \<Longrightarrow> length r < length s"
proof (induction s arbitrary: str r rule: parse_string.induct)
  case 1
  then show ?case by simp
next
  case (2 c cs)
  show ?case
  proof (cases "c = CHR 0x22")
    case True
    with 2(4) show ?thesis by simp
  next
    case nq: False
    show ?thesis
    proof (cases "c = CHR 0x5C")
      case True
      with 2(4) nq obtain e r0 where cs: "cs = e # r0" by (cases cs) auto
      consider (simple) "e \<in> set [CHR 0x22, CHR 0x5C, CHR ''/'', CHR ''b'', CHR ''f'', CHR ''n'', CHR ''r'', CHR ''t'']"
        | (uni) "e \<notin> set [CHR 0x22, CHR 0x5C, CHR ''/'', CHR ''b'', CHR ''f'', CHR ''n'', CHR ''r'', CHR ''t'']"
            "e = CHR ''u'' \<and> 4 \<le> length r0 \<and> list_all is_hex (take 4 r0)"
        | (bad) "e \<notin> set [CHR 0x22, CHR 0x5C, CHR ''/'', CHR ''b'', CHR ''f'', CHR ''n'', CHR ''r'', CHR ''t'']"
            "\<not> (e = CHR ''u'' \<and> 4 \<le> length r0 \<and> list_all is_hex (take 4 r0))"
        by blast
      then show ?thesis
      proof cases
        case simple
        with 2(4) nq True cs obtain str' where "parse_string r0 = Some (str', r)"
          by (auto split: option.splits)
        with 2(1) [OF nq True cs simple] cs show ?thesis by simp
      next
        case uni
        with 2(4) nq True cs obtain str' where "parse_string (drop 4 r0) = Some (str', r)"
          by (auto split: option.splits)
        with 2(2) [OF nq True cs uni] cs show ?thesis by simp
      next
        case bad
        with 2(4) nq True cs show ?thesis by auto
      qed
    next
      case False
      with 2(4) nq obtain str' where "\<not> (of_char c :: nat) < 32" and "parse_string cs = Some (str', r)"
        by (auto split: option.splits if_splits)
      with 2(3) [OF nq False] show ?thesis by simp
    qed
  qed
qed

lemma literal_length: "literal p s = Some r \<Longrightarrow> length r + length p = length s"
  by (auto simp: literal_def prefix_def split: if_splits)

lemma parse_digits_length: "parse_digits s = Some (ds, r) \<Longrightarrow> length r \<le> length s"
  by (auto simp: parse_digits_def length_dropWhile_le split: if_splits)

lemma parse_int_length: "parse_int s = Some (i, r) \<Longrightarrow> length r < length s"
  by (auto simp: parse_int_def length_dropWhile_le less_Suc_eq_le split: list.splits if_splits)

lemma parse_frac_length: "parse_frac s = Some (f, r) \<Longrightarrow> length r \<le> length s"
  by (auto simp: parse_frac_def split: list.splits if_splits option.splits
      dest!: parse_digits_length)

lemma parse_exp_length: "parse_exp s = Some (x, r) \<Longrightarrow> length r \<le> length s"
  by (auto simp: parse_exp_def split: list.splits if_splits option.splits
      dest!: parse_digits_length)

lemma parse_number_length: "parse_number s = Some (lexeme, r) \<Longrightarrow> length r < length s"
  by (auto simp: parse_number_def Let_def split: list.splits if_splits option.splits prod.splits
      dest!: parse_int_length parse_frac_length parse_exp_length)

lemma parse_scalar_length: "parse_scalar s = Some (v, r) \<Longrightarrow> length r < length s"
  by (auto simp: parse_scalar_def split: list.splits if_splits option.splits
      dest!: literal_length parse_string_length parse_number_length)


lemma parse_length:
  "(parse_value n s = Some (v, r) \<longrightarrow> length r < length s)
 \<and> (parse_elements n s = Some (vs, r) \<longrightarrow> length r < length s)
 \<and> (parse_members n s = Some (ms, r) \<longrightarrow> length r < length s)"
proof (induction n arbitrary: s v vs ms r)
  case 0
  show ?case by simp
next
  case (Suc k)
  have iv: "parse_value k t = Some (x, r') \<Longrightarrow> length r' < length t" for t x r'
    using Suc by blast
  have ie: "parse_elements k t = Some (x, r') \<Longrightarrow> length r' < length t" for t x r'
    using Suc by blast
  have im: "parse_members k t = Some (x, r') \<Longrightarrow> length r' < length t" for t x r'
    using Suc by blast
  have 1: "length r < length s" if p: "parse_value (Suc k) s = Some (v, r)"
  proof -
    from p obtain c r0 where s: "skip_ws s = c # r0" by (auto split: list.splits)
    note l = skip_ws_Cons_length [OF s]
    show ?thesis
    proof (cases "skip_ws r0")
      case Nil
      with p s l show ?thesis by (auto split: if_splits dest!: parse_scalar_length)
    next
      case (Cons d r')
      note l' = skip_ws_Cons_length [OF Cons]
      from p s Cons l l' show ?thesis
        by (auto split: if_splits option.splits dest!: parse_scalar_length ie im)
    qed
  qed
  have 2: "length r < length s" if p: "parse_elements (Suc k) s = Some (vs, r)"
  proof -
    from p obtain x r1 where a: "parse_value k s = Some (x, r1)" by (auto split: option.splits)
    from p a obtain d r' where b: "skip_ws r1 = d # r'" by (auto split: list.splits)
    note l = iv [OF a] skip_ws_Cons_length [OF b]
    from p a b l show ?thesis by (auto split: if_splits option.splits dest!: ie)
  qed
  have 3: "length r < length s" if p: "parse_members (Suc k) s = Some (ms, r)"
  proof -
    from p obtain q r0 where 0: "skip_ws s = q # r0" and q: "q = CHR 0x22"
      by (auto split: list.splits if_splits)
    from p 0 q obtain key r1 where 1: "parse_string r0 = Some (key, r1)"
      by (auto split: option.splits)
    from p 0 q 1 obtain col r2 where 2: "skip_ws r1 = col # r2" and col: "col = CHR '':''"
      by (auto split: list.splits if_splits)
    from p 0 q 1 2 col obtain x r3 where 3: "parse_value k r2 = Some (x, r3)"
      by (auto split: option.splits)
    from p 0 q 1 2 col 3 obtain d r4 where 4: "skip_ws r3 = d # r4"
      by (auto split: list.splits)
    note l = skip_ws_Cons_length [OF 0] parse_string_length [OF 1] skip_ws_Cons_length [OF 2]
      iv [OF 3] skip_ws_Cons_length [OF 4]
    from p 0 q 1 2 col 3 4 l show ?thesis by (auto split: if_splits option.splits dest!: im)
  qed
  from 1 2 3 show ?case by blast
qed

lemma parse_value_length: "parse_value n s = Some (v, r) \<Longrightarrow> length r < length s"
  using parse_length by blast

lemma value_step:
  assumes e: "\<And>t x. length t < length s \<Longrightarrow> parse_elements k t = Some x \<Longrightarrow> parse_elements j t = Some x"
      and m: "\<And>t x. length t < length s \<Longrightarrow> parse_members k t = Some x \<Longrightarrow> parse_members j t = Some x"
      and p: "parse_value (Suc k) s = Some r"
  shows "parse_value (Suc j) s = Some r"
proof (cases "skip_ws s")
  case Nil
  with p show ?thesis by simp
next
  case (Cons c r0)
  note s = Cons
  note l = skip_ws_Cons_length [OF s]
  show ?thesis
  proof (cases "skip_ws r0")
    case Nil
    with p s show ?thesis by (simp split: if_splits)
  next
    case (Cons d r')
    consider (arr) "c = CHR ''[''" "d \<noteq> CHR '']''" | (obj) "c = CHR ''{''" "d \<noteq> CHR ''}''"
      | (other) "\<not> (c = CHR ''['' \<and> d \<noteq> CHR '']'')" "\<not> (c = CHR ''{'' \<and> d \<noteq> CHR ''}'')"
      by blast
    then show ?thesis
    proof cases
      case arr
      with p s Cons obtain vs rest where "parse_elements k r0 = Some (vs, rest)" and "r = (JArray vs, rest)"
        by (auto split: option.splits)
      with e [OF l, of "(vs, rest)"] arr s Cons show ?thesis by simp
    next
      case obj
      with p s Cons obtain ms rest where "parse_members k r0 = Some (ms, rest)" and "r = (JObject ms, rest)"
        by (auto split: option.splits)
      with m [OF l, of "(ms, rest)"] obj s Cons show ?thesis by simp
    next
      case other
      with p s Cons show ?thesis by (auto split: if_splits)
    qed
  qed
qed

lemma elements_step:
  assumes v: "\<And>x. parse_value k s = Some x \<Longrightarrow> parse_value j s = Some x"
      and e: "\<And>t x. length t < length s \<Longrightarrow> parse_elements k t = Some x \<Longrightarrow> parse_elements j t = Some x"
      and p: "parse_elements (Suc k) s = Some r"
  shows "parse_elements (Suc j) s = Some r"
proof -
  from p obtain x r1 where 1: "parse_value k s = Some (x, r1)"
    by (auto split: option.splits)
  from p 1 obtain d r' where 2: "skip_ws r1 = d # r'"
    by (auto split: list.splits)
  have l: "length r' < length s"
    using parse_value_length [OF 1] skip_ws_Cons_length [OF 2] by simp
  show ?thesis
  proof (cases "d = CHR '',''")
    case True
    with p 1 2 obtain vs rest where 3: "parse_elements k r' = Some (vs, rest)" and "r = (x # vs, rest)"
      by (auto split: option.splits)
    with v [OF 1] e [OF l 3] 2 True show ?thesis by simp
  next
    case False
    with p 1 2 v [OF 1] show ?thesis by (auto split: if_splits)
  qed
qed

lemma members_step:
  assumes v: "\<And>t x. length t < length s \<Longrightarrow> parse_value k t = Some x \<Longrightarrow> parse_value j t = Some x"
      and m: "\<And>t x. length t < length s \<Longrightarrow> parse_members k t = Some x \<Longrightarrow> parse_members j t = Some x"
      and p: "parse_members (Suc k) s = Some r"
  shows "parse_members (Suc j) s = Some r"
proof -
  from p obtain q r0 where 0: "skip_ws s = q # r0" and q: "q = CHR 0x22"
    by (auto split: list.splits if_splits)
  from p 0 q obtain key r1 where 1: "parse_string r0 = Some (key, r1)"
    by (auto split: option.splits)
  from p 0 q 1 obtain col r2 where 2: "skip_ws r1 = col # r2" and col: "col = CHR '':''"
    by (auto split: list.splits if_splits)
  from p 0 q 1 2 col obtain x r3 where 3: "parse_value k r2 = Some (x, r3)"
    by (auto split: option.splits)
  from p 0 q 1 2 col 3 obtain d r4 where 4: "skip_ws r3 = d # r4"
    by (auto split: list.splits)
  have l2: "length r2 < length s"
    using skip_ws_Cons_length [OF 0] parse_string_length [OF 1] skip_ws_Cons_length [OF 2] by simp
  have l4: "length r4 < length s"
    using l2 parse_value_length [OF 3] skip_ws_Cons_length [OF 4] by simp
  show ?thesis
  proof (cases "d = CHR '',''")
    case True
    with p 0 q 1 2 col 3 4 obtain ms rest where 5: "parse_members k r4 = Some (ms, rest)"
      and "r = ((key, x) # ms, rest)"
      by (auto split: option.splits)
    with v [OF l2 3] m [OF l4 5] 0 q 1 2 col 4 True show ?thesis by simp
  next
    case False
    with p 0 q 1 2 col 3 4 v [OF l2 3] show ?thesis by (auto split: if_splits)
  qed
qed

lemma parse_mono_add:
  "(parse_value n s = Some r \<longrightarrow> parse_value (n + d) s = Some r)
 \<and> (parse_elements n s = Some re \<longrightarrow> parse_elements (n + d) s = Some re)
 \<and> (parse_members n s = Some rm \<longrightarrow> parse_members (n + d) s = Some rm)"
proof (induction n arbitrary: s r re rm)
  case 0
  show ?case by simp
next
  case (Suc k)
  have v: "parse_value k t = Some x \<Longrightarrow> parse_value (k + d) t = Some x" for t x
    using Suc by blast
  have e: "parse_elements k t = Some x \<Longrightarrow> parse_elements (k + d) t = Some x" for t x
    using Suc by blast
  have m: "parse_members k t = Some x \<Longrightarrow> parse_members (k + d) t = Some x" for t x
    using Suc by blast
  show ?case
    using value_step [of s k "k + d" r] elements_step [of k s "k + d" re]
      members_step [of s k "k + d" rm] v e m
    by simp
qed

lemma parse_value_mono: "parse_value n s = Some r \<Longrightarrow> n \<le> m \<Longrightarrow> parse_value m s = Some r"
  using parse_mono_add [of n s r "m - n"] by simp

lemma parse_elements_mono: "parse_elements n s = Some r \<Longrightarrow> n \<le> m \<Longrightarrow> parse_elements m s = Some r"
  using parse_mono_add [of n s _ "m - n" r] by simp

lemma parse_members_mono: "parse_members n s = Some r \<Longrightarrow> n \<le> m \<Longrightarrow> parse_members m s = Some r"
  using parse_mono_add [of n s _ "m - n" _ r] by simp

text \<open>Whatever some amount of fuel parses, the fuel that \<open>JSON_parse\<close> starts with parses too.\<close>

lemma parse_enough_fuel:
  "(parse_value n s = Some x \<longrightarrow> parse_value (2 * length s + 1) s = Some x)
 \<and> (parse_elements n s = Some xe \<longrightarrow> parse_elements (2 * length s + 2) s = Some xe)
 \<and> (parse_members n s = Some xm \<longrightarrow> parse_members (2 * length s + 2) s = Some xm)"
proof (induction n arbitrary: s x xe xm)
  case 0
  show ?case by simp
next
  case (Suc k)
  have v: "parse_value k t = Some y \<Longrightarrow> parse_value (2 * length t + 1) t = Some y" for t y
    using Suc by blast
  have e: "parse_elements k t = Some y \<Longrightarrow> parse_elements (2 * length t + 2) t = Some y" for t y
    using Suc by blast
  have m: "parse_members k t = Some y \<Longrightarrow> parse_members (2 * length t + 2) t = Some y" for t y
    using Suc by blast
  have 1: "parse_value (Suc (2 * length s)) s = Some x" if "parse_value (Suc k) s = Some x"
  proof (rule value_step [OF _ _ that])
    fix t :: string and y assume "length t < length s"
    then have le: "2 * length t + 2 \<le> 2 * length s" by simp
    show "parse_elements k t = Some y \<Longrightarrow> parse_elements (2 * length s) t = Some y"
      using parse_elements_mono [OF e le] by simp
  next
    fix t :: string and y assume "length t < length s"
    then have le: "2 * length t + 2 \<le> 2 * length s" by simp
    show "parse_members k t = Some y \<Longrightarrow> parse_members (2 * length s) t = Some y"
      using parse_members_mono [OF m le] by simp
  qed
  have 2: "parse_elements (Suc (2 * length s + 1)) s = Some xe" if "parse_elements (Suc k) s = Some xe"
  proof (rule elements_step [OF _ _ that])
    fix y show "parse_value k s = Some y \<Longrightarrow> parse_value (2 * length s + 1) s = Some y"
      by (rule v)
  next
    fix t :: string and y assume "length t < length s"
    then have le: "2 * length t + 2 \<le> 2 * length s + 1" by simp
    show "parse_elements k t = Some y \<Longrightarrow> parse_elements (2 * length s + 1) t = Some y"
      using parse_elements_mono [OF e le] by simp
  qed
  have 3: "parse_members (Suc (2 * length s + 1)) s = Some xm" if "parse_members (Suc k) s = Some xm"
  proof (rule members_step [OF _ _ that])
    fix t :: string and y assume l: "length t < length s"
    then have le': "2 * length t + 1 \<le> 2 * length s + 1" by simp
    show "parse_value k t = Some y \<Longrightarrow> parse_value (2 * length s + 1) t = Some y"
      using parse_value_mono [OF v le'] by simp
  next
    fix t :: string and y assume l: "length t < length s"
    then have le: "2 * length t + 2 \<le> 2 * length s + 1" by simp
    show "parse_members k t = Some y \<Longrightarrow> parse_members (2 * length s + 1) t = Some y"
      using parse_members_mono [OF m le] by simp
  qed
  from 1 2 3 show ?case by simp
qed

text \<open>
  So the fuel never decides: \<open>JSON_parse\<close> fails only on a text that no amount of fuel
  parses to a value followed by nothing but white space.
\<close>

lemma JSON_parse_complete:
  "parse_value n s = Some (v, r) \<Longrightarrow> skip_ws r = [] \<Longrightarrow> JSON_parse s = Inr v"
proof -
  assume p: "parse_value n s = Some (v, r)" and r: "skip_ws r = []"
  have "parse_value (2 * length s + 1) s = Some (v, r)"
    using parse_enough_fuel p by blast
  then have "parse_value (2 * length s + 2) s = Some (v, r)"
    by (rule parse_value_mono) simp
  with r show ?thesis by (simp add: JSON_parse_def)
qed

section \<open>Local collections\<close>

lemma JSON_parse_empty_array: "JSON_parse ''[]'' = Inr (JArray [])"
  by code_simp

lemma JSON_parse_undefined: "JSON_parse ''undefined'' = Inl SyntaxError"
  by code_simp

lemma read_local_missing:
  "getItem w key = None \<or> getItem w key = Some [] \<Longrightarrow> read_local w key = Inr (JArray [])"
  by (auto simp: read_local_def js_or_def JSON_parse_empty_array)

lemma read_local_stored:
  "getItem w key = Some t \<Longrightarrow> t \<noteq> [] \<Longrightarrow> read_local w key = JSON_parse t"
  by (simp add: read_local_def js_or_def)

section \<open>The session: \<^verbatim>\<open>handleUser\<close>\<close>

lemma create_profile_session:
  "user (snd (create_profile w u s)) = user s \<and> loading (snd (create_profile w u s)) = loading s"
  by (simp add: create_profile_def emit_def Let_def split: sum.splits)

lemma update_lastLogin_session:
  "user (snd (update_lastLogin w u s)) = user s \<and> loading (snd (update_lastLogin w u s)) = loading s"
  by (simp add: update_lastLogin_def emit_def Let_def split: sum.splits)

lemma finish_user:
  "user (snd (case p of (Inl e, s2) \<Rightarrow> (Inl e, s2) | (Inr x, s2) \<Rightarrow> (Inr (), setLoading False s2)))
     = user (snd p)"
  by (cases p; cases "fst p") (auto simp: setLoading_def)

text \<open>\<^verbatim>\<open>setUser\<close> runs before the first \<^verbatim>\<open>await\<close>, so the user is set however the handler ends.\<close>

lemma handleUser_user:
  "user (snd (handleUser w n s)) =
     (case n of None \<Rightarrow> None | Some u \<Rightarrow> if emailVerified u then Some u else None)"
proof (cases n)
  case None
  then show ?thesis by (simp add: handleUser_def setUser_def setLoading_def)
next
  case (Some u)
  show ?thesis
  proof (cases "emailVerified u")
    case False
    with Some show ?thesis by (simp add: handleUser_def setUser_def setLoading_def)
  next
    case True
    show ?thesis
    proof (cases "getDoc w (uid u)")
      case (Inl e)
      with Some True show ?thesis by (simp add: handleUser_def setUser_def emit_def)
    next
      case (Inr b)
      with Some True show ?thesis
        by (simp add: handleUser_def finish_user create_profile_session update_lastLogin_session
              setUser_def emit_def Let_def)
    qed
  qed
qed

text \<open>No other operation sets the user; \<^verbatim>\<open>signOut\<close> clears it when the provider's sign-out succeeds.\<close>

lemma checkRedirectResult_user: "user (snd (checkRedirectResult w s)) = user s"
  by (simp add: checkRedirectResult_def toast_def console_error_def emit_def Let_def
      split: sum.splits option.splits)

lemma signInWithGoogle_user: "user (snd (signInWithGoogle w s)) = user s"
  by (simp add: signInWithGoogle_def toast_def console_error_def emit_def setLoading_def Let_def
      split: sum.splits)

lemma signInWithEmail_try_user: "user (snd (signInWithEmail_try w e p s)) = user s"
  by (simp add: signInWithEmail_try_def toast_def emit_def Let_def split: sum.splits)

lemma signInWithEmail_user: "user (snd (signInWithEmail w e p s)) = user s"
proof (cases "signInWithEmail_try w e p s")
  case (Pair r s')
  with signInWithEmail_try_user [of w e p s] show ?thesis
    by (cases r) (simp_all add: signInWithEmail_def console_error_def emit_def)
qed

lemma signUpWithEmail_try_user: "user (snd (signUpWithEmail_try w u n s)) = user s"
  by (simp add: signUpWithEmail_try_def emit_def Let_def split: sum.splits)

lemma signUpWithEmail_catch_user: "user (snd (signUpWithEmail_catch w u error s)) = user s"
  by (simp add: signUpWithEmail_catch_def console_error_def emit_def Let_def split: sum.splits)

lemma signUpWithEmail_user: "user (snd (signUpWithEmail w e p n s)) = user s"
proof (cases "array_includes ALLOWED_DOMAINS (index (split CHR ''@'' e) 1)")
  case False
  then show ?thesis by (simp add: signUpWithEmail_def)
next
  case True
  show ?thesis
  proof (cases "createUserWithEmailAndPassword w e p")
    case (Inl err)
    with True show ?thesis by (simp add: signUpWithEmail_def emit_def)
  next
    case (Inr u)
    obtain r s2 where t: "signUpWithEmail_try w u n (emit (CreateUserWithEmailAndPassword e p) s) = (r, s2)"
      by fastforce
    with signUpWithEmail_try_user [of w u n "emit (CreateUserWithEmailAndPassword e p) s"]
    have "user s2 = user s" by (simp add: emit_def)
    with True Inr t show ?thesis
      by (cases r) (simp_all add: signUpWithEmail_def signUpWithEmail_catch_user)
  qed
qed

lemma sendPasswordReset_user: "user (snd (sendPasswordReset w e s)) = user s"
  by (simp add: sendPasswordReset_def console_error_def emit_def Let_def split: sum.splits)

lemma signOut_user:
  "user (snd (signOut w s)) = (case firebaseSignOut w of Inl _ \<Rightarrow> user s | Inr _ \<Rightarrow> None)"
  by (simp add: signOut_def toast_def console_error_def emit_def setUser_def Let_def
      split: sum.splits)

lemma step_user:
  "user (step w operation s) = Some u \<Longrightarrow>
     (case operation of
        Notification n \<Rightarrow> n = Some u \<and> emailVerified u
      | _ \<Rightarrow> user s = Some u)"
  by (cases operation)
    (auto simp: handleUser_user checkRedirectResult_user signInWithGoogle_user signInWithEmail_user
       signUpWithEmail_user sendPasswordReset_user signOut_user
     split: option.splits if_splits sum.splits)

lemma run_user:
  "user (run ops s) = Some u \<Longrightarrow>
     (case last_notification ops of
        None \<Rightarrow> user s = Some u
      | Some n \<Rightarrow> n = Some u \<and> emailVerified u)"
proof (induction ops arbitrary: s)
  case Nil
  then show ?case by simp
next
  case (Cons a ops)
  obtain w operation where a: "a = (w, operation)" by (cases a)
  from Cons.prems a have "user (run ops (step w operation s)) = Some u" by simp
  from Cons.IH [OF this] show ?case
    using step_user [of w operation s u] a
    by (cases "last_notification ops"; cases operation) auto
qed

text \<open>
  Claim C1. A notification that reports no user, or a user whose email is not
  verified, leaves \<^verbatim>\<open>user\<close> null, whatever the state was and whatever the collaborators
  answer. Hence, after any run from the initial state (notifications, the redirect
  check and calls of the operations, in any order), \<^verbatim>\<open>user\<close> is non-null only if there
  was a notification and the most recent one reported that user with a verified email.
\<close>

theorem handleUser_verification_gate:
  "((n = None \<or> (\<exists>u. n = Some u \<and> \<not> emailVerified u)) \<longrightarrow>
      user (snd (handleUser w n s)) = None)
   \<and> (user (run ops initial_state) = Some u' \<longrightarrow>
        last_notification ops = Some (Some u') \<and> emailVerified u')"
proof -
  have "user (run ops initial_state) = Some u' \<longrightarrow>
        last_notification ops = Some (Some u') \<and> emailVerified u'"
    using run_user [of ops initial_state u']
    by (cases "last_notification ops") (auto simp: initial_state_def)
  then show ?thesis
    by (auto simp: handleUser_user)
qed

theorem handleUser_verification_gate_witness:
  "(Some bob = None \<or> (\<exists>u. Some bob = Some u \<and> \<not> emailVerified u))
   \<and> user (snd (handleUser env_ok (Some bob) (setUser (Some ada) initial_state))) = None
   \<and> user (run [(env_ok, Notification (Some ada)), (env_ok, SendPasswordReset ''ada@gmail.com'')]
              initial_state) = Some ada
   \<and> last_notification [(env_ok, Notification (Some ada)), (env_ok, SendPasswordReset ''ada@gmail.com'')]
        = Some (Some ada)
   \<and> emailVerified ada"
  using handleUser_verification_gate
    [of "Some bob" env_ok "setUser (Some ada) initial_state"
        "[(env_ok, Notification (Some ada)), (env_ok, SendPasswordReset ''ada@gmail.com'')]" ada]
  by (simp add: handleUser_user sendPasswordReset_user bob_def ada_def)

subsection \<open>When the handler completes\<close>

lemma create_profile_reads:
  assumes "read_local w ''cookbookRecipes'' = Inr c" and "read_local w ''variationBook'' = Inr v"
  shows "create_profile w u s =
     (case setDoc w (uid u)
             \<lparr>doc_uid = uid u, doc_displayName = displayName u, doc_email = email u,
              doc_photoURL = photoURL u, lastLogin = now w, createdAt = now w,
              cookbook = c, variationBook = v\<rparr> True of
        Inl e \<Rightarrow> Inl e | Inr _ \<Rightarrow> Inr (),
      s\<lparr>trace := trace s @
           [GetItem ''cookbookRecipes'', GetItem ''variationBook'',
            SetDoc (uid u)
              \<lparr>doc_uid = uid u, doc_displayName = displayName u, doc_email = email u,
               doc_photoURL = photoURL u, lastLogin = now w, createdAt = now w,
               cookbook = c, variationBook = v\<rparr> True]\<rparr>)"
  using assms by (simp add: create_profile_def emit_def Let_def split: sum.splits)

lemma create_profile_first_throws:
  assumes "read_local w ''cookbookRecipes'' = Inl e"
  shows "create_profile w u s = (Inl e, s\<lparr>trace := trace s @ [GetItem ''cookbookRecipes'']\<rparr>)"
  using assms by (simp add: create_profile_def emit_def Let_def)

lemma create_profile_second_throws:
  assumes "read_local w ''cookbookRecipes'' = Inr c" and "read_local w ''variationBook'' = Inl e"
  shows "create_profile w u s =
     (Inl e, s\<lparr>trace := trace s @ [GetItem ''cookbookRecipes'', GetItem ''variationBook'']\<rparr>)"
  using assms by (simp add: create_profile_def emit_def Let_def)

lemma handleUser_first_login:
  assumes "emailVerified u" and "getDoc w (uid u) = Inr False"
  shows "handleUser w (Some u) s =
     (case create_profile w u (emit (GetDoc (uid u)) (setUser (Some u) s)) of
        (Inl e, s2) \<Rightarrow> (Inl e, s2)
      | (Inr _, s2) \<Rightarrow> (Inr (), setLoading False s2))"
  using assms by (simp add: handleUser_def Let_def)

lemma handleUser_returning:
  "emailVerified u \<Longrightarrow> getDoc w (uid u) = Inr True \<Longrightarrow>
     fst (handleUser w (Some u) s) =
       (case updateDoc w (uid u) (now w) of Inl e \<Rightarrow> Inl e | Inr _ \<Rightarrow> Inr ())"
  by (simp add: handleUser_def update_lastLogin_def Let_def split: sum.splits)

lemma handleUser_signed_out:
  "n = None \<or> (\<exists>u. n = Some u \<and> \<not> emailVerified u) \<Longrightarrow>
     handleUser w n s = (Inr (), s\<lparr>user := None, loading := False\<rparr>)"
  by (auto simp: handleUser_def setUser_def setLoading_def)

lemma finish_loading:
  "loading (snd (case p of (Inl e, s2) \<Rightarrow> (Inl e, s2) | (Inr x, s2) \<Rightarrow> (Inr (), setLoading False s2)))
     = (case fst p of Inl _ \<Rightarrow> loading (snd p) | Inr _ \<Rightarrow> False)"
  by (cases p; cases "fst p") (auto simp: setLoading_def)

lemma finish_result:
  "fst (case p of (Inl e, s2) \<Rightarrow> (Inl e, s2) | (Inr x, s2) \<Rightarrow> (Inr (), setLoading False s2))
     = (case fst p of Inl e \<Rightarrow> Inl e | Inr _ \<Rightarrow> Inr ())"
  by (cases p; cases "fst p") auto

text \<open>\<^verbatim>\<open>setLoading(false)\<close> is the handler's last statement: it runs exactly when nothing before it threw.\<close>

lemma handleUser_loading:
  "loading (snd (handleUser w n s)) =
     (case fst (handleUser w n s) of Inl _ \<Rightarrow> loading s | Inr _ \<Rightarrow> False)"
proof (cases n)
  case None
  then show ?thesis by (simp add: handleUser_def setUser_def setLoading_def)
next
  case (Some u)
  show ?thesis
  proof (cases "emailVerified u")
    case False
    with Some show ?thesis by (simp add: handleUser_def setUser_def setLoading_def)
  next
    case True
    show ?thesis
    proof (cases "getDoc w (uid u)")
      case (Inl e)
      with Some True show ?thesis by (simp add: handleUser_def setUser_def emit_def)
    next
      case (Inr b)
      with Some True show ?thesis
        by (simp add: handleUser_def finish_loading finish_result create_profile_session
              update_lastLogin_session setUser_def emit_def Let_def split: sum.splits)
    qed
  qed
qed

text \<open>
  Besides the handler, only \<^verbatim>\<open>signInWithGoogle\<close> writes \<^verbatim>\<open>loading\<close>: it sets it, and
  its \<^verbatim>\<open>catch\<close> block clears it when the redirect could not be started.
\<close>

lemma checkRedirectResult_loading: "loading (snd (checkRedirectResult w s)) = loading s"
  by (simp add: checkRedirectResult_def toast_def console_error_def emit_def Let_def
      split: sum.splits option.splits)

lemma signInWithGoogle_loading:
  "loading (snd (signInWithGoogle w s)) = (case signInWithRedirect w of Inl _ \<Rightarrow> False | Inr _ \<Rightarrow> True)"
  by (simp add: signInWithGoogle_def toast_def console_error_def emit_def setLoading_def Let_def
      split: sum.splits)

lemma signInWithEmail_try_loading: "loading (snd (signInWithEmail_try w e p s)) = loading s"
  by (simp add: signInWithEmail_try_def toast_def emit_def Let_def split: sum.splits)

lemma signInWithEmail_loading: "loading (snd (signInWithEmail w e p s)) = loading s"
proof (cases "signInWithEmail_try w e p s")
  case (Pair r s')
  with signInWithEmail_try_loading [of w e p s] show ?thesis
    by (cases r) (simp_all add: signInWithEmail_def console_error_def emit_def)
qed

lemma signUpWithEmail_try_loading: "loading (snd (signUpWithEmail_try w u n s)) = loading s"
  by (simp add: signUpWithEmail_try_def emit_def Let_def split: sum.splits)

lemma signUpWithEmail_catch_loading: "loading (snd (signUpWithEmail_catch w u error s)) = loading s"
  by (simp add: signUpWithEmail_catch_def console_error_def emit_def Let_def split: sum.splits)

lemma signUpWithEmail_loading: "loading (snd (signUpWithEmail w e p n s)) = loading s"
proof (cases "array_includes ALLOWED_DOMAINS (index (split CHR ''@'' e) 1)")
  case False
  then show ?thesis by (simp add: signUpWithEmail_def)
next
  case True
  show ?thesis
  proof (cases "createUserWithEmailAndPassword w e p")
    case (Inl err)
    with True show ?thesis by (simp add: signUpWithEmail_def emit_def)
  next
    case (Inr u)
    obtain r s2 where t: "signUpWithEmail_try w u n (emit (CreateUserWithEmailAndPassword e p) s) = (r, s2)"
      by fastforce
    with signUpWithEmail_try_loading [of w u n "emit (CreateUserWithEmailAndPassword e p) s"]
    have "loading s2 = loading s" by (simp add: emit_def)
    with True Inr t show ?thesis
      by (cases r) (simp_all add: signUpWithEmail_def signUpWithEmail_catch_loading)
  qed
qed

lemma sendPasswordReset_loading: "loading (snd (sendPasswordReset w e s)) = loading s"
  by (simp add: sendPasswordReset_def console_error_def emit_def Let_def split: sum.splits)

lemma signOut_loading: "loading (snd (signOut w s)) = loading s"
  by (simp add: signOut_def toast_def console_error_def emit_def setUser_def Let_def
      split: sum.splits)

text \<open>
  While no notification has arrived, \<^verbatim>\<open>loading\<close> can only have been cleared by a
  \<^verbatim>\<open>signInWithGoogle\<close> call whose redirect could not be started.
\<close>

lemma run_loading_before_notification:
  "last_notification ops = None \<Longrightarrow> loading s \<Longrightarrow> \<not> loading (run ops s) \<Longrightarrow>
     \<exists>w e. (w, SignInWithGoogle) \<in> set ops \<and> signInWithRedirect w = Inl e"
proof (induction ops arbitrary: s)
  case Nil
  then show ?case by simp
next
  case (Cons a ops)
  obtain w operation where a: "a = (w, operation)" by (cases a)
  from Cons.prems(1) a have ln: "last_notification ops = None"
    by (cases "last_notification ops") simp_all
  from Cons.prems(1) a ln have nn: "\<And>n. operation \<noteq> Notification n"
    by auto
  from Cons.prems(3) a have r: "\<not> loading (run ops (step w operation s))" by simp
  show ?case
  proof (cases "loading (step w operation s)")
    case True
    from Cons.IH [OF ln True r] show ?thesis by auto
  next
    case False
    with Cons.prems(2) nn have "operation = SignInWithGoogle \<and> (\<exists>e. signInWithRedirect w = Inl e)"
      by (cases operation)
        (auto simp: checkRedirectResult_loading signInWithGoogle_loading signInWithEmail_loading
           signUpWithEmail_loading sendPasswordReset_loading signOut_loading
         split: sum.splits)
    with a show ?thesis by auto
  qed
qed

text \<open>
  Claim C8, as amended. \<^verbatim>\<open>loading\<close> is true (\<^verbatim>\<open>isResolved\<close> false) in the initial
  state, and in a run from it in which no notification has arrived yet \<^verbatim>\<open>loading\<close> is
  false only if a \<^verbatim>\<open>signInWithGoogle\<close> call of the run could not start its redirect. A
  notification, the first included, whose handler runs to its end leaves \<^verbatim>\<open>loading\<close>
  false. The handler always runs to its end when no user or an unverified user is
  reported; for a verified user it does when the profile lookup succeeds and then
  either the profile exists and the \<^verbatim>\<open>lastLogin\<close> update succeeds, or it does not
  exist, both local collections parse and the profile write succeeds.
\<close>

theorem first_notification_resolves:
  "loading initial_state
   \<and> (last_notification ops = None \<and> \<not> loading (run ops initial_state) \<longrightarrow>
        (\<exists>w' e. (w', SignInWithGoogle) \<in> set ops \<and> signInWithRedirect w' = Inl e))
   \<and> (fst (handleUser w n s) = Inr () \<longrightarrow> \<not> loading (snd (handleUser w n s)))
   \<and> (n = None \<or> (\<exists>u. n = Some u \<and> \<not> emailVerified u) \<longrightarrow> fst (handleUser w n s) = Inr ())
   \<and> (\<forall>u. n = Some u \<and> emailVerified u \<and> getDoc w (uid u) = Inr True
          \<and> updateDoc w (uid u) (now w) = Inr () \<longrightarrow> fst (handleUser w n s) = Inr ())
   \<and> (\<forall>u c v. n = Some u \<and> emailVerified u \<and> getDoc w (uid u) = Inr False
          \<and> read_local w ''cookbookRecipes'' = Inr c \<and> read_local w ''variationBook'' = Inr v
          \<and> setDoc w (uid u)
               \<lparr>doc_uid = uid u, doc_displayName = displayName u, doc_email = email u,
                doc_photoURL = photoURL u, lastLogin = now w, createdAt = now w,
                cookbook = c, variationBook = v\<rparr> True = Inr ()
          \<longrightarrow> fst (handleUser w n s) = Inr ())"
proof -
  have 1: "loading initial_state" by (simp add: initial_state_def)
  have 2: "fst (handleUser w n s) = Inr () \<longrightarrow> \<not> loading (snd (handleUser w n s))"
    by (simp add: handleUser_loading)
  have 3: "last_notification ops = None \<and> \<not> loading (run ops initial_state) \<longrightarrow>
        (\<exists>w' e. (w', SignInWithGoogle) \<in> set ops \<and> signInWithRedirect w' = Inl e)"
    using run_loading_before_notification [of ops initial_state] 1 by blast
  have 4: "n = None \<or> (\<exists>u. n = Some u \<and> \<not> emailVerified u) \<longrightarrow> fst (handleUser w n s) = Inr ()"
    using handleUser_signed_out [of n w s] by auto
  have 5: "\<forall>u. n = Some u \<and> emailVerified u \<and> getDoc w (uid u) = Inr True
          \<and> updateDoc w (uid u) (now w) = Inr () \<longrightarrow> fst (handleUser w n s) = Inr ()"
    by (auto simp: handleUser_returning)
  have 6: "\<forall>u c v. n = Some u \<and> emailVerified u \<and> getDoc w (uid u) = Inr False
          \<and> read_local w ''cookbookRecipes'' = Inr c \<and> read_local w ''variationBook'' = Inr v
          \<and> setDoc w (uid u)
               \<lparr>doc_uid = uid u, doc_displayName = displayName u, doc_email = email u,
                doc_photoURL = photoURL u, lastLogin = now w, createdAt = now w,
                cookbook = c, variationBook = v\<rparr> True = Inr ()
          \<longrightarrow> fst (handleUser w n s) = Inr ()"
    by (auto simp: handleUser_first_login create_profile_reads)
  from 1 2 3 4 5 6 show ?thesis by blast
qed

theorem first_notification_resolves_witness:
  "loading initial_state
   \<and> fst (handleUser env_ok (Some ada) initial_state) = Inr ()
   \<and> \<not> loading (snd (handleUser env_ok (Some ada) initial_state))
   \<and> fst (handleUser env_ok (Some bob) initial_state) = Inr ()
   \<and> \<not> loading (snd (handleUser env_ok (Some bob) initial_state))
   \<and> fst (handleUser env_ok None initial_state) = Inr ()
   \<and> \<not> loading (snd (handleUser env_ok None initial_state))
   \<and> fst (handleUser env_first_login (Some ada) initial_state) = Inr ()
   \<and> \<not> loading (snd (handleUser env_first_login (Some ada) initial_state))
   \<and> last_notification [(env_ok, SignOut), (env_redirect_fails, SignInWithGoogle)] = None
   \<and> \<not> loading (run [(env_ok, SignOut), (env_redirect_fails, SignInWithGoogle)] initial_state)
   \<and> (\<exists>w' e. (w', SignInWithGoogle) \<in> set [(env_ok, SignOut), (env_redirect_fails, SignInWithGoogle)]
          \<and> signInWithRedirect w' = Inl e)"
proof -
  have r: "read_local env_first_login key = Inr (JArray [])" for key
    by (rule read_local_missing) (simp add: env_first_login_def env_ok_def)
  have g: "last_notification [(env_ok, SignOut), (env_redirect_fails, SignInWithGoogle)] = None
     \<and> \<not> loading (run [(env_ok, SignOut), (env_redirect_fails, SignInWithGoogle)] initial_state)"
    by (simp add: signInWithGoogle_loading env_redirect_fails_def env_ok_def)
  show ?thesis
    using first_notification_resolves [of _ env_ok "Some ada" initial_state]
      first_notification_resolves [of _ env_ok "Some bob" initial_state]
      first_notification_resolves [of _ env_ok None initial_state]
      first_notification_resolves
        [of "[(env_ok, SignOut), (env_redirect_fails, SignInWithGoogle)]"
            env_first_login "Some ada" initial_state]
      r g
    by (simp add: env_ok_def env_first_login_def ada_def bob_def)
qed

text \<open>
  Claim C8 as stated fails twice. The first notification reports the verified user
  \<open>ada\<close> while the document store is unreachable: \<^verbatim>\<open>getDoc\<close> rejects, the handler
  rejects with it, and \<^verbatim>\<open>loading\<close> is still true after the notification. And before
  any notification, a \<^verbatim>\<open>signInWithGoogle\<close> call that cannot start its redirect leaves
  \<^verbatim>\<open>loading\<close> false.
\<close>

theorem first_notification_store_failure_counterexample:
  "emailVerified ada
   \<and> handleUser env_store_down (Some ada) initial_state =
       (Inl unavailable, \<lparr>user = Some ada, loading = True, trace = [GetDoc ''u1'']\<rparr>)
   \<and> loading (run [(env_store_down, Notification (Some ada))] initial_state)
   \<and> last_notification [(env_redirect_fails, SignInWithGoogle)] = None
   \<and> signInWithRedirect env_redirect_fails = Inl network_error
   \<and> \<not> loading (run [(env_redirect_fails, SignInWithGoogle)] initial_state)"
  by (simp add: handleUser_def signInWithGoogle_loading env_store_down_def env_redirect_fails_def
        env_ok_def ada_def initial_state_def emit_def setUser_def Let_def)

subsection \<open>First login: seeding the profile\<close>

text \<open>A stored text on which \<^verbatim>\<open>JSON.parse\<close> throws ends the handler before any write.\<close>

lemma handleUser_parse_failure:
  assumes "emailVerified u" and "getDoc w (uid u) = Inr False"
  shows "read_local w ''cookbookRecipes'' = Inl e \<Longrightarrow>
           handleUser w (Some u) s =
             (Inl e, s\<lparr>user := Some u,
                       trace := trace s @ [GetDoc (uid u), GetItem ''cookbookRecipes'']\<rparr>)"
    and "read_local w ''cookbookRecipes'' = Inr c \<Longrightarrow> read_local w ''variationBook'' = Inl e \<Longrightarrow>
           handleUser w (Some u) s =
             (Inl e, s\<lparr>user := Some u,
                       trace := trace s @ [GetDoc (uid u), GetItem ''cookbookRecipes'',
                                           GetItem ''variationBook'']\<rparr>)"
  using assms
  by (simp_all add: handleUser_first_login create_profile_first_throws create_profile_second_throws
        emit_def setUser_def)

text \<open>
  Claim C4, as amended. On a pass for a verified user whose profile document is
  absent: a collection whose stored value is missing (null, or the empty string) reads
  as the empty array, and any other stored text reads as \<^verbatim>\<open>JSON.parse\<close> of it. When
  both collections parse, the handler calls \<^verbatim>\<open>setDoc\<close> with \<^verbatim>\<open>merge: true\<close> on a document
  seeded with exactly those two values, and completes without error exactly when that
  write succeeds.
\<close>

theorem provisioning_seed:
  "emailVerified u \<and> getDoc w (uid u) = Inr False \<longrightarrow>
     ((getItem w key = None \<or> getItem w key = Some []) \<longrightarrow> read_local w key = Inr (JArray []))
   \<and> (getItem w key = Some t \<and> t \<noteq> [] \<longrightarrow> read_local w key = JSON_parse t)
   \<and> (read_local w ''cookbookRecipes'' = Inr c \<and> read_local w ''variationBook'' = Inr v \<longrightarrow>
        trace (snd (handleUser w (Some u) s)) =
          trace s @
            [GetDoc (uid u), GetItem ''cookbookRecipes'', GetItem ''variationBook'',
             SetDoc (uid u)
               \<lparr>doc_uid = uid u, doc_displayName = displayName u, doc_email = email u,
                doc_photoURL = photoURL u, lastLogin = now w, createdAt = now w,
                cookbook = c, variationBook = v\<rparr> True]
        \<and> fst (handleUser w (Some u) s) =
            (case setDoc w (uid u)
                    \<lparr>doc_uid = uid u, doc_displayName = displayName u, doc_email = email u,
                     doc_photoURL = photoURL u, lastLogin = now w, createdAt = now w,
                     cookbook = c, variationBook = v\<rparr> True of
               Inl e \<Rightarrow> Inl e | Inr _ \<Rightarrow> Inr ()))"
  by (auto simp: handleUser_first_login create_profile_reads read_local_missing read_local_stored
        emit_def setUser_def setLoading_def split: sum.splits)

theorem provisioning_seed_witness:
  "emailVerified ada \<and> getDoc env_first_login (uid ada) = Inr False
   \<and> getItem env_first_login ''cookbookRecipes'' = None
   \<and> read_local env_first_login ''cookbookRecipes'' = Inr (JArray [])
   \<and> read_local env_first_login ''variationBook'' = Inr (JArray [])
   \<and> trace (snd (handleUser env_first_login (Some ada) initial_state)) =
       [GetDoc ''u1'', GetItem ''cookbookRecipes'', GetItem ''variationBook'',
        SetDoc ''u1''
          \<lparr>doc_uid = ''u1'', doc_displayName = Some ''Ada'',
           doc_email = Some ''ada@gmail.com'', doc_photoURL = None,
           lastLogin = 0, createdAt = 0,
           cookbook = JArray [], variationBook = JArray []\<rparr> True]
   \<and> fst (handleUser env_first_login (Some ada) initial_state) = Inr ()"
  using provisioning_seed
    [of ada env_first_login "''cookbookRecipes''" "[]" "JArray []" "JArray []" initial_state]
  by (simp add: read_local_missing env_first_login_def env_ok_def ada_def initial_state_def)

text \<open>
  Claim C4 as stated fails on a malformed stored value: \<open>ada\<close> logs in for the first
  time on a device whose \<^verbatim>\<open>cookbookRecipes\<close> entry holds the text \<^verbatim>\<open>undefined\<close>.
  \<^verbatim>\<open>JSON.parse\<close> throws, the collection does not default to the empty array, the handler
  rejects and no profile is written.
\<close>

theorem provisioning_malformed_counterexample:
  "emailVerified ada \<and> getDoc env_malformed (uid ada) = Inr False
   \<and> getItem env_malformed ''cookbookRecipes'' = Some ''undefined''
   \<and> handleUser env_malformed (Some ada) initial_state =
       (Inl SyntaxError,
        \<lparr>user = Some ada, loading = True, trace = [GetDoc ''u1'', GetItem ''cookbookRecipes'']\<rparr>)"
  by (simp add: handleUser_def create_profile_def read_local_def js_or_def JSON_parse_undefined
        env_malformed_def env_ok_def ada_def initial_state_def emit_def setUser_def Let_def)

section \<open>Sign-in with email\<close>

text \<open>
  Claim C5, as amended. When the provider accepts the credentials and returns a user
  whose email is not verified, \<^verbatim>\<open>signInWithEmail\<close> calls the provider's sign-out and
  rejects: with \<open>NotVerified\<close> when that sign-out succeeds, with the sign-out's own
  error when it fails. Either way the session is left as it was (\<^verbatim>\<open>user\<close> stays null),
  and the trace holds the sign-in, the sign-out and the \<^verbatim>\<open>console.error\<close> entry only: no
  welcome toast and no \<^verbatim>\<open>lastLogin\<close> update.
\<close>

theorem signInWithEmail_unverified:
  "signInWithEmailAndPassword w email' pass = Inr result_user \<and> \<not> emailVerified result_user \<longrightarrow>
     signInWithEmail w email' pass s =
       (let error = (case firebaseSignOut w of Inl e \<Rightarrow> e | Inr _ \<Rightarrow> NotVerified) in
        (Inl error,
         s\<lparr>trace := trace s @
              [SignInWithEmailAndPassword email' pass, FirebaseSignOut,
               ConsoleError ''Error signing in with email: '' error]\<rparr>))"
  by (simp add: signInWithEmail_def signInWithEmail_try_def console_error_def emit_def
        NotVerified_def Let_def split: sum.splits)

theorem signInWithEmail_unverified_witness:
  "signInWithEmailAndPassword env_unverified ''bob@gmail.com'' ''secret1'' = Inr bob
   \<and> \<not> emailVerified bob
   \<and> signInWithEmail env_unverified ''bob@gmail.com'' ''secret1'' initial_state =
       (Inl NotVerified,
        \<lparr>user = None, loading = True,
         trace = [SignInWithEmailAndPassword ''bob@gmail.com'' ''secret1'', FirebaseSignOut,
                  ConsoleError ''Error signing in with email: '' NotVerified]\<rparr>)"
  using signInWithEmail_unverified [of env_unverified "''bob@gmail.com''" "''secret1''" bob initial_state]
  by (simp add: env_unverified_def env_ok_def bob_def initial_state_def)

text \<open>
  Claim C5 as stated fails when the forced sign-out itself fails: the provider returns
  the unverified \<open>bob\<close> and then rejects the sign-out with a network error. The caller
  gets that network error, not \<open>NotVerified\<close>.
\<close>

theorem signInWithEmail_unverified_counterexample:
  "signInWithEmailAndPassword env_unverified_signOut_fails ''bob@gmail.com'' ''secret1'' = Inr bob
   \<and> \<not> emailVerified bob
   \<and> fst (signInWithEmail env_unverified_signOut_fails ''bob@gmail.com'' ''secret1'' initial_state)
       = Inl network_error
   \<and> network_error \<noteq> NotVerified"
  by (simp add: signInWithEmail_def signInWithEmail_try_def env_unverified_signOut_fails_def
        env_ok_def bob_def network_error_def NotVerified_def new_Error_def Let_def)

section \<open>Sign-up with email\<close>

subsection \<open>The domain check\<close>

lemma split_nonempty: "split sep s \<noteq> []"
  by (induction s) (auto split: list.splits)

lemma hd_split: "hd (split sep t) = takeWhile (\<lambda>c. c \<noteq> sep) t"
  by (induction t) (auto split: list.splits simp: split_nonempty)

lemma index_split_1:
  "index (split sep s) (Suc 0) =
     (case dropWhile (\<lambda>c. c \<noteq> sep) s of
        [] \<Rightarrow> None
      | _ # d \<Rightarrow> Some (takeWhile (\<lambda>c. c \<noteq> sep) d))"
proof (induction s)
  case Nil
  show ?case by (simp add: index_def)
next
  case (Cons c cs)
  show ?case
  proof (cases "c = sep")
    case True
    then show ?thesis
      using split_nonempty [of sep cs] hd_split [of sep cs]
      by (cases "split sep cs") (auto simp: index_def)
  next
    case False
    with Cons show ?thesis
      using split_nonempty [of sep cs]
      by (cases "split sep cs") (auto simp: index_def)
  qed
qed

lemma domain_of_suffix:
  "index (split CHR ''@'' e) (Suc 0) = map_option (takeWhile (\<lambda>c. c \<noteq> CHR ''@'')) (domain_suffix e)"
proof (cases "dropWhile (\<lambda>c. c \<noteq> CHR ''@'') e")
  case Nil
  show ?thesis unfolding index_split_1 domain_suffix_def Nil by simp
next
  case (Cons a d)
  show ?thesis unfolding index_split_1 domain_suffix_def Cons by simp
qed

lemma takeWhile_no_at: "CHR ''@'' \<notin> set d \<Longrightarrow> takeWhile (\<lambda>c. c \<noteq> CHR ''@'') d = d"
  by (induction d) auto

lemma allowed_no_at: "d \<in> set ALLOWED_DOMAINS \<Longrightarrow> CHR ''@'' \<notin> set d"
  by (auto simp: ALLOWED_DOMAINS_def)

lemma signUp_rejects:
  "\<not> array_includes ALLOWED_DOMAINS (index (split CHR ''@'' e) 1) \<Longrightarrow>
     signUpWithEmail w e p n s = (Inl DomainNotAllowed, s)"
  by (simp add: signUpWithEmail_def DomainNotAllowed_def)

lemma signUpWithEmail_try_trace:
  "\<exists>xs. trace (snd (signUpWithEmail_try w u n s)) = trace s @ xs"
  by (simp add: signUpWithEmail_try_def emit_def Let_def split: sum.splits)

lemma signUpWithEmail_catch_result:
  "signUpWithEmail_catch w u error s =
     (Inl (if code error = Some ''auth/network-request-failed''
              \<or> string_includes (message error) ''sendEmailVerification''
           then VerificationSendFailed else error),
      s\<lparr>trace := trace s @
           [ConsoleError ''Error during sign up, attempting to clean up user:'' error, DeleteUser u]
           @ (case deleteUser w u of
                Inl e \<Rightarrow> [ConsoleError ''Failed to cleanup user:'' e]
              | Inr _ \<Rightarrow> [])\<rparr>)"
  by (simp add: signUpWithEmail_catch_def console_error_def emit_def VerificationSendFailed_def Let_def
      split: sum.splits)

lemma signUp_proceeds:
  assumes "array_includes ALLOWED_DOMAINS (index (split CHR ''@'' e) 1)"
  shows "\<exists>xs. trace (snd (signUpWithEmail w e p n s)) = trace s @ CreateUserWithEmailAndPassword e p # xs"
proof (cases "createUserWithEmailAndPassword w e p")
  case (Inl err)
  with assms show ?thesis by (simp add: signUpWithEmail_def emit_def)
next
  case (Inr u)
  let ?s1 = "emit (CreateUserWithEmailAndPassword e p) s"
  obtain xs where xs: "trace (snd (signUpWithEmail_try w u n ?s1)) = trace ?s1 @ xs"
    using signUpWithEmail_try_trace by blast
  obtain r s2 where t: "signUpWithEmail_try w u n ?s1 = (r, s2)" by fastforce
  show ?thesis
  proof (cases r)
    case (Inl error)
    with assms Inr t xs show ?thesis
      by (simp add: signUpWithEmail_def signUpWithEmail_catch_result emit_def)
  next
    case (Inr x)
    with assms \<open>createUserWithEmailAndPassword w e p = Inr u\<close> t xs show ?thesis
      by (simp add: signUpWithEmail_def emit_def)
  qed
qed

text \<open>
  Claim C3, as amended. \<^verbatim>\<open>signUpWithEmail\<close> rejects with \<open>DomainNotAllowed\<close>, the
  state and the trace untouched (no provider or store call), when the email has no
  domain suffix (no \<^verbatim>\<open>@\<close>), and when its domain suffix holds no further \<^verbatim>\<open>@\<close> and is not an
  allowed domain. It makes the provider's account-creation call, as its first call,
  whenever the domain suffix is an allowed domain.
\<close>

theorem signUp_domain_allowlist:
  "(domain_suffix e = None \<longrightarrow> signUpWithEmail w e p n s = (Inl DomainNotAllowed, s))
   \<and> (\<forall>d. domain_suffix e = Some d \<and> CHR ''@'' \<notin> set d \<and> d \<notin> set ALLOWED_DOMAINS \<longrightarrow>
          signUpWithEmail w e p n s = (Inl DomainNotAllowed, s))
   \<and> (\<forall>d. domain_suffix e = Some d \<and> d \<in> set ALLOWED_DOMAINS \<longrightarrow>
          (\<exists>xs. trace (snd (signUpWithEmail w e p n s)) =
                  trace s @ CreateUserWithEmailAndPassword e p # xs))"
proof -
  have 1: "domain_suffix e = None \<longrightarrow> signUpWithEmail w e p n s = (Inl DomainNotAllowed, s)"
    by (auto intro!: signUp_rejects simp: domain_of_suffix array_includes_def)
  have 2: "\<forall>d. domain_suffix e = Some d \<and> CHR ''@'' \<notin> set d \<and> d \<notin> set ALLOWED_DOMAINS \<longrightarrow>
          signUpWithEmail w e p n s = (Inl DomainNotAllowed, s)"
    by (auto intro!: signUp_rejects simp: domain_of_suffix array_includes_def takeWhile_no_at)
  have 3: "\<forall>d. domain_suffix e = Some d \<and> d \<in> set ALLOWED_DOMAINS \<longrightarrow>
          (\<exists>xs. trace (snd (signUpWithEmail w e p n s)) =
                  trace s @ CreateUserWithEmailAndPassword e p # xs)"
    by (auto intro!: signUp_proceeds simp: domain_of_suffix array_includes_def takeWhile_no_at allowed_no_at)
  from 1 2 3 show ?thesis by blast
qed

theorem signUp_domain_allowlist_witness:
  "domain_suffix ''ada'' = None
   \<and> signUpWithEmail env_ok ''ada'' ''secret1'' ''Ada'' initial_state = (Inl DomainNotAllowed, initial_state)
   \<and> domain_suffix ''user@contoso.io'' = Some ''contoso.io''
   \<and> CHR ''@'' \<notin> set ''contoso.io'' \<and> ''contoso.io'' \<notin> set ALLOWED_DOMAINS
   \<and> signUpWithEmail env_ok ''user@contoso.io'' ''secret1'' ''Ada'' initial_state = (Inl DomainNotAllowed, initial_state)
   \<and> domain_suffix ''user@gmail.com'' = Some ''gmail.com''
   \<and> ''gmail.com'' \<in> set ALLOWED_DOMAINS
   \<and> (\<exists>xs. trace (snd (signUpWithEmail env_ok ''user@gmail.com'' ''secret1'' ''Ada'' initial_state)) =
            CreateUserWithEmailAndPassword ''user@gmail.com'' ''secret1'' # xs)"
proof -
  have 1: "domain_suffix ''ada'' = None" by code_simp
  have 2: "domain_suffix ''user@contoso.io'' = Some ''contoso.io''" by code_simp
  have 3: "domain_suffix ''user@gmail.com'' = Some ''gmail.com''" by code_simp
  have 4: "CHR ''@'' \<notin> set ''contoso.io'' \<and> ''contoso.io'' \<notin> set ALLOWED_DOMAINS
     \<and> ''gmail.com'' \<in> set ALLOWED_DOMAINS"
    by (simp add: ALLOWED_DOMAINS_def)
  show ?thesis
    using signUp_domain_allowlist [of "''ada''" env_ok "''secret1''" "''Ada''" initial_state]
      signUp_domain_allowlist [of "''user@contoso.io''" env_ok "''secret1''" "''Ada''" initial_state]
      signUp_domain_allowlist [of "''user@gmail.com''" env_ok "''secret1''" "''Ada''" initial_state]
      1 2 3 4
    by (simp add: initial_state_def)
qed

text \<open>
  Claim C3 as stated fails on an input with two \<^verbatim>\<open>@\<close>. For \<^verbatim>\<open>a@gmail.com@evil.com\<close>
  neither the text after the first \<^verbatim>\<open>@\<close> nor the text after the last one is an allowed
  domain, yet \<^verbatim>\<open>split('@')[1]\<close> is \<^verbatim>\<open>gmail.com\<close> and the provider's account-creation call
  is made.
\<close>

theorem signUp_domain_allowlist_counterexample:
  "domain_suffix ''a@gmail.com@evil.com'' = Some ''gmail.com@evil.com''
   \<and> ''gmail.com@evil.com'' \<notin> set ALLOWED_DOMAINS
   \<and> last (split CHR ''@'' ''a@gmail.com@evil.com'') = ''evil.com''
   \<and> ''evil.com'' \<notin> set ALLOWED_DOMAINS
   \<and> hd (trace (snd (signUpWithEmail env_ok ''a@gmail.com@evil.com'' ''secret1'' ''Ada'' initial_state)))
       = CreateUserWithEmailAndPassword ''a@gmail.com@evil.com'' ''secret1''"
proof -
  have 1: "domain_suffix ''a@gmail.com@evil.com'' = Some ''gmail.com@evil.com''"
    by code_simp
  have 2: "last (split CHR ''@'' ''a@gmail.com@evil.com'') = ''evil.com''"
    by code_simp
  have 3: "''gmail.com@evil.com'' \<notin> set ALLOWED_DOMAINS \<and> ''evil.com'' \<notin> set ALLOWED_DOMAINS"
    by (simp add: ALLOWED_DOMAINS_def)
  have 4: "hd (trace (snd (signUpWithEmail env_ok ''a@gmail.com@evil.com'' ''secret1'' ''Ada'' initial_state)))
       = CreateUserWithEmailAndPassword ''a@gmail.com@evil.com'' ''secret1''"
    by (simp add: signUpWithEmail_def signUpWithEmail_try_def index_def array_includes_def
          ALLOWED_DOMAINS_def env_ok_def initial_state_def emit_def Let_def)
  from 1 2 3 4 show ?thesis by simp
qed

lemma to_lower_at_self: "to_lower CHR ''@'' = CHR ''@''"
  by (simp add: to_lower_def)

lemma to_lower_at: "to_lower c = CHR ''@'' \<Longrightarrow> c = CHR ''@''"
  by (simp add: to_lower_def split: if_splits)

text \<open>
  Claim C9. The check is case-sensitive: an email whose domain suffix is not an
  allowed domain but agrees with one up to letter case is rejected with
  \<open>DomainNotAllowed\<close>, the state and the trace untouched (no provider call).
\<close>

theorem signUp_case_sensitive:
  "domain_suffix e = Some d \<and> d \<notin> set ALLOWED_DOMAINS
   \<and> (\<exists>a \<in> set ALLOWED_DOMAINS. map to_lower d = map to_lower a) \<longrightarrow>
     signUpWithEmail w e p n s = (Inl DomainNotAllowed, s)"
proof (intro impI, elim conjE bexE)
  fix a
  assume d: "domain_suffix e = Some d" and nd: "d \<notin> set ALLOWED_DOMAINS"
    and a: "a \<in> set ALLOWED_DOMAINS" and eq: "map to_lower d = map to_lower a"
  have "CHR ''@'' \<notin> set d"
  proof
    assume "CHR ''@'' \<in> set d"
    then have "to_lower CHR ''@'' \<in> to_lower ` set d" by (rule imageI)
    then have "CHR ''@'' \<in> set (map to_lower d)" by (simp only: to_lower_at_self set_map)
    then have "CHR ''@'' \<in> set (map to_lower a)" by (simp only: eq)
    then obtain c where "c \<in> set a" and "to_lower c = CHR ''@''" by auto
    then have "CHR ''@'' \<in> set a" using to_lower_at by blast
    with a show False using allowed_no_at by blast
  qed
  with d nd show "signUpWithEmail w e p n s = (Inl DomainNotAllowed, s)"
    by (auto intro!: signUp_rejects simp: domain_of_suffix array_includes_def takeWhile_no_at)
qed

lemma domain_capital: "domain_suffix ''ada@Gmail.com'' = Some ''Gmail.com''"
  by code_simp

theorem signUp_case_sensitive_witness:
  "domain_suffix ''ada@Gmail.com'' = Some ''Gmail.com''
   \<and> ''Gmail.com'' \<notin> set ALLOWED_DOMAINS
   \<and> map to_lower ''Gmail.com'' = map to_lower ''gmail.com''
   \<and> ''gmail.com'' \<in> set ALLOWED_DOMAINS
   \<and> signUpWithEmail env_ok ''ada@Gmail.com'' ''secret1'' ''Ada'' initial_state
        = (Inl DomainNotAllowed, initial_state)"
proof -
  have 1: "map to_lower ''Gmail.com'' = map to_lower ''gmail.com''" by code_simp
  have 2: "''Gmail.com'' \<notin> set ALLOWED_DOMAINS \<and> ''gmail.com'' \<in> set ALLOWED_DOMAINS"
    by (simp add: ALLOWED_DOMAINS_def)
  have 3: "\<exists>a \<in> set ALLOWED_DOMAINS. map to_lower ''Gmail.com'' = map to_lower a"
    using 1 2 by blast
  show ?thesis
    using signUp_case_sensitive
      [of "''ada@Gmail.com''" "''Gmail.com''" env_ok "''secret1''" "''Ada''" initial_state]
      domain_capital 1 2 3
    by blast
qed

subsection \<open>Rollback\<close>

lemma signUpWithEmail_try_result:
  "fst (signUpWithEmail_try w u n s) =
     (case updateProfile w u n of
        Inl e \<Rightarrow> Inl e
      | Inr _ \<Rightarrow>
          (case sendEmailVerification w u of
             Inl e \<Rightarrow> Inl e
           | Inr _ \<Rightarrow>
               (case setDoc w (uid u)
                       \<lparr>doc_uid = uid u, doc_displayName = Some n, doc_email = email u,
                        doc_photoURL = None, lastLogin = now w, createdAt = now w,
                        cookbook = JArray [], variationBook = JArray []\<rparr> False of
                  Inl e \<Rightarrow> Inl e
                | Inr _ \<Rightarrow> firebaseSignOut w)))"
  by (simp add: signUpWithEmail_try_def Let_def split: sum.splits)

lemma signUpWithEmail_try_result_state: "fst (signUpWithEmail_try w u n s) = fst (signUpWithEmail_try w u n s')"
  by (simp add: signUpWithEmail_try_result)

text \<open>
  Claim C2, as amended. When the account is created and a later step of the
  \<^verbatim>\<open>try\<close> block fails with \<open>error\<close>, \<^verbatim>\<open>signUpWithEmail\<close> logs the error, calls
  \<^verbatim>\<open>deleteUser\<close> on the new account and only logs a failure of that call. It then rejects
  with \<open>VerificationSendFailed\<close> if \<open>error\<close> has the code \<^verbatim>\<open>auth/network-request-failed\<close> or
  a message that contains \<^verbatim>\<open>sendEmailVerification\<close>, and with \<open>error\<close> itself otherwise:
  which step failed plays no part, and neither does the outcome of the cleanup.
\<close>

theorem signUp_rollback:
  "array_includes ALLOWED_DOMAINS (index (split CHR ''@'' email') 1)
   \<and> createUserWithEmailAndPassword w email' pass = Inr userToVerify
   \<and> fst (signUpWithEmail_try w userToVerify name s0) = Inl error \<longrightarrow>
     fst (signUpWithEmail w email' pass name s) =
       Inl (if code error = Some ''auth/network-request-failed''
               \<or> string_includes (message error) ''sendEmailVerification''
            then VerificationSendFailed else error)
     \<and> trace (snd (signUpWithEmail w email' pass name s)) =
         trace (snd (signUpWithEmail_try w userToVerify name
                       (emit (CreateUserWithEmailAndPassword email' pass) s)))
         @ [ConsoleError ''Error during sign up, attempting to clean up user:'' error,
            DeleteUser userToVerify]
         @ (case deleteUser w userToVerify of
              Inl e \<Rightarrow> [ConsoleError ''Failed to cleanup user:'' e]
            | Inr _ \<Rightarrow> [])"
proof (intro impI, elim conjE)
  let ?s1 = "emit (CreateUserWithEmailAndPassword email' pass) s"
  assume a: "array_includes ALLOWED_DOMAINS (index (split CHR ''@'' email') 1)"
    and c: "createUserWithEmailAndPassword w email' pass = Inr userToVerify"
    and f: "fst (signUpWithEmail_try w userToVerify name s0) = Inl error"
  from f have "fst (signUpWithEmail_try w userToVerify name ?s1) = Inl error"
    using signUpWithEmail_try_result_state by metis
  then obtain s2 where t: "signUpWithEmail_try w userToVerify name ?s1 = (Inl error, s2)"
    by (cases "signUpWithEmail_try w userToVerify name ?s1") auto
  have "signUpWithEmail w email' pass name s = signUpWithEmail_catch w userToVerify error s2"
    using a c t by (simp add: signUpWithEmail_def)
  then show "fst (signUpWithEmail w email' pass name s) =
       Inl (if code error = Some ''auth/network-request-failed''
               \<or> string_includes (message error) ''sendEmailVerification''
            then VerificationSendFailed else error)
     \<and> trace (snd (signUpWithEmail w email' pass name s)) =
         trace (snd (signUpWithEmail_try w userToVerify name ?s1))
         @ [ConsoleError ''Error during sign up, attempting to clean up user:'' error,
            DeleteUser userToVerify]
         @ (case deleteUser w userToVerify of
              Inl e \<Rightarrow> [ConsoleError ''Failed to cleanup user:'' e]
            | Inr _ \<Rightarrow> [])"
    using t by (simp add: signUpWithEmail_catch_result)
qed

theorem signUp_rollback_witness:
  "array_includes ALLOWED_DOMAINS (index (split CHR ''@'' ''bob@gmail.com'') 1)
   \<and> createUserWithEmailAndPassword env_rollback ''bob@gmail.com'' ''secret1'' = Inr bob
   \<and> fst (signUpWithEmail_try env_rollback bob ''Bob'' initial_state) = Inl network_error
   \<and> fst (signUpWithEmail env_rollback ''bob@gmail.com'' ''secret1'' ''Bob'' initial_state)
       = Inl VerificationSendFailed
   \<and> trace (snd (signUpWithEmail env_rollback ''bob@gmail.com'' ''secret1'' ''Bob'' initial_state)) =
        [CreateUserWithEmailAndPassword ''bob@gmail.com'' ''secret1'',
         UpdateProfile bob ''Bob'',
         ConsoleError ''Error during sign up, attempting to clean up user:'' network_error,
         DeleteUser bob,
         ConsoleError ''Failed to cleanup user:'' too_many_requests]"
  using signUp_rollback
    [of "''bob@gmail.com''" env_rollback "''secret1''" bob "''Bob''" initial_state network_error initial_state]
  by (simp add: index_def array_includes_def ALLOWED_DOMAINS_def signUpWithEmail_try_def
        env_rollback_def env_ok_def network_error_def initial_state_def emit_def Let_def)

lemma no_sendEmailVerification_in_message:
  "\<not> string_includes (message too_many_requests) ''sendEmailVerification''"
  by (simp add: too_many_requests_def)

text \<open>
  Claim C2 as stated fails when the verification-email step fails with an error
  that is not a network error: the provider throttles \<^verbatim>\<open>sendEmailVerification\<close>
  (\<^verbatim>\<open>auth/too-many-requests\<close>). The failure originates from the verification-email
  step, the account is deleted, and the caller gets the provider's error unchanged, not
  \<open>VerificationSendFailed\<close>.
\<close>

theorem signUp_rollback_counterexample:
  "createUserWithEmailAndPassword env_verification_throttled ''bob@gmail.com'' ''secret1'' = Inr bob
   \<and> updateProfile env_verification_throttled bob ''Bob'' = Inr ()
   \<and> sendEmailVerification env_verification_throttled bob = Inl too_many_requests
   \<and> fst (signUpWithEmail env_verification_throttled ''bob@gmail.com'' ''secret1'' ''Bob'' initial_state)
       = Inl too_many_requests
   \<and> too_many_requests \<noteq> VerificationSendFailed"
  using no_sendEmailVerification_in_message
  by (simp add: signUpWithEmail_def signUpWithEmail_try_def signUpWithEmail_catch_def
        index_def array_includes_def ALLOWED_DOMAINS_def env_verification_throttled_def env_ok_def
        too_many_requests_def VerificationSendFailed_def new_Error_def Let_def)

section \<open>Password reset, redirect check and sign-out\<close>

text \<open>
  Claim C6. For every email and every answer of the provider, failure included,
  \<^verbatim>\<open>sendPasswordReset\<close> resolves: its promise is never rejected. It leaves the session
  untouched, and a provider failure shows only as a \<^verbatim>\<open>console.error\<close> entry (no toast).
\<close>

theorem sendPasswordReset_never_raises:
  "fst (sendPasswordReset w email' s) = Inr ()
   \<and> user (snd (sendPasswordReset w email' s)) = user s
   \<and> loading (snd (sendPasswordReset w email' s)) = loading s
   \<and> trace (snd (sendPasswordReset w email' s)) =
       trace s @ SendPasswordResetEmail email' #
         (case sendPasswordResetEmail w email' of
            Inl error \<Rightarrow> [ConsoleError ''Error sending password reset email: '' error]
          | Inr _ \<Rightarrow> [])"
  by (simp add: sendPasswordReset_def console_error_def emit_def Let_def split: sum.splits)

theorem sendPasswordReset_never_raises_witness:
  "fst (sendPasswordReset (env_ok\<lparr>sendPasswordResetEmail := (\<lambda>_. Inl network_error)\<rparr>)
         ''nobody@gmail.com'' initial_state) = Inr ()
   \<and> trace (snd (sendPasswordReset (env_ok\<lparr>sendPasswordResetEmail := (\<lambda>_. Inl network_error)\<rparr>)
         ''nobody@gmail.com'' initial_state)) =
       [SendPasswordResetEmail ''nobody@gmail.com'',
        ConsoleError ''Error sending password reset email: '' network_error]"
  using sendPasswordReset_never_raises
    [of "env_ok\<lparr>sendPasswordResetEmail := (\<lambda>_. Inl network_error)\<rparr>" "''nobody@gmail.com''" initial_state]
  by (simp add: env_ok_def initial_state_def)

text \<open>
  Claim C7. The startup redirect check never rejects and never touches \<^verbatim>\<open>user\<close> or
  \<^verbatim>\<open>loading\<close>. What it surfaces is decided by the outcome alone: no result, nothing; a
  result, the welcome toast with the user's display name, or \<^verbatim>\<open>friend\<close> when the name is
  null (or empty); a failure of code \<^verbatim>\<open>auth/web-storage-unsupported\<close>, no toast (only
  the \<^verbatim>\<open>console.error\<close> entry every failure gets); any other failure, the fixed
  \<^verbatim>\<open>Sign-In Failed\<close> toast.
\<close>

theorem checkRedirectResult_outcomes:
  "fst (checkRedirectResult w s) = Inr ()
   \<and> user (snd (checkRedirectResult w s)) = user s
   \<and> loading (snd (checkRedirectResult w s)) = loading s
   \<and> trace (snd (checkRedirectResult w s)) =
       trace s @ GetRedirectResult #
         (case getRedirectResult w of
            Inr None \<Rightarrow> []
          | Inr (Some result_user) \<Rightarrow>
              [Toast \<lparr>variant = None,
                      title = ''Welcome back, ''
                        @ (case displayName result_user of
                             None \<Rightarrow> ''friend''
                           | Some n \<Rightarrow> if n = [] then ''friend'' else n)
                        @ ''!'',
                      description = Some ''You've successfully signed in.''\<rparr>]
          | Inl error \<Rightarrow>
              ConsoleError ''Error getting redirect result:'' error #
                (if code error = Some ''auth/web-storage-unsupported'' then []
                 else [Toast \<lparr>variant = Some ''destructive'',
                              title = ''Sign-In Failed'',
                              description = Some ''An unexpected error occurred during sign-in.''\<rparr>]))"
  by (simp add: checkRedirectResult_def console_error_def toast_def emit_def js_or_def Let_def
      split: sum.splits option.splits)

theorem checkRedirectResult_outcomes_witness:
  "trace (snd (checkRedirectResult (env_ok\<lparr>getRedirectResult := Inr (Some bob)\<rparr>) initial_state)) =
     [GetRedirectResult,
      Toast \<lparr>variant = None, title = ''Welcome back, friend!'',
             description = Some ''You've successfully signed in.''\<rparr>]
   \<and> trace (snd (checkRedirectResult (env_ok\<lparr>getRedirectResult := Inl storage_unsupported\<rparr>) initial_state)) =
     [GetRedirectResult, ConsoleError ''Error getting redirect result:'' storage_unsupported]"
  using checkRedirectResult_outcomes [of "env_ok\<lparr>getRedirectResult := Inr (Some bob)\<rparr>" initial_state]
    checkRedirectResult_outcomes [of "env_ok\<lparr>getRedirectResult := Inl storage_unsupported\<rparr>" initial_state]
  by (simp add: env_ok_def initial_state_def bob_def storage_unsupported_def)

text \<open>
  Claim C10. When the provider's sign-out fails, \<^verbatim>\<open>signOut\<close> resolves (it does not
  raise), changes nothing of the session (\<^verbatim>\<open>user\<close> included) and surfaces the
  \<^verbatim>\<open>Sign-Out Failed\<close> toast whose description is the error's message. \<^verbatim>\<open>user\<close> is
  cleared exactly when the provider's sign-out succeeds.
\<close>

theorem signOut_failure:
  "(firebaseSignOut w = Inl error \<longrightarrow>
      signOut w s =
        (Inr (),
         s\<lparr>trace := trace s @
              [FirebaseSignOut,
               ConsoleError ''Error during sign-out: '' error,
               Toast \<lparr>variant = Some ''destructive'', title = ''Sign-Out Failed'',
                      description = Some (message error)\<rparr>]\<rparr>))
   \<and> user (snd (signOut w s)) = (case firebaseSignOut w of Inl _ \<Rightarrow> user s | Inr _ \<Rightarrow> None)"
  by (simp add: signOut_def console_error_def toast_def emit_def setUser_def Let_def
      split: sum.splits)

theorem signOut_failure_witness:
  "firebaseSignOut (env_ok\<lparr>firebaseSignOut := Inl network_error\<rparr>) = Inl network_error
   \<and> signOut (env_ok\<lparr>firebaseSignOut := Inl network_error\<rparr>) (setUser (Some ada) initial_state) =
     (Inr (),
      \<lparr>user = Some ada, loading = True,
       trace = [FirebaseSignOut,
                ConsoleError ''Error during sign-out: '' network_error,
                Toast \<lparr>variant = Some ''destructive'', title = ''Sign-Out Failed'',
                       description = Some ''Firebase: Error (auth/network-request-failed).''\<rparr>]\<rparr>)"
  using signOut_failure
    [of "env_ok\<lparr>firebaseSignOut := Inl network_error\<rparr>" network_error "setUser (Some ada) initial_state"]
  by (simp add: env_ok_def initial_state_def setUser_def network_error_def)

end
